theory Spec2Isabelle
  imports Main "HOL-Library.Word"
begin

section \<open>JavaScript strings\<close>

text \<open>
  A JavaScript string is a sequence of UTF-16 code units. Titles and collection names of
  the library are Japanese, and \<open>String.prototype.trim\<close> strips code units beyond
  Latin-1 (the ideographic space U+3000 among them), so a string is a list of 16-bit
  words rather than a list of bytes.
\<close>

type_synonym jschar = "16 word"
type_synonym jsstring = "jschar list"

text \<open>ASCII literals of the source, written as HOL string literals.\<close>

definition js :: "string \<Rightarrow> jsstring" where
  "js s = map (\<lambda>c. of_char c) s"

text \<open>
  The code units removed by \<open>trim\<close>: ECMAScript WhiteSpace (TAB, VT, FF, SP, NBSP,
  ZWNBSP and the category Zs) and LineTerminator (LF, CR, LS, PS).
\<close>

definition is_js_space :: "jschar \<Rightarrow> bool" where
  "is_js_space c \<longleftrightarrow>
     (0x0009 \<le> c \<and> c \<le> 0x000D) \<or> c = 0x0020 \<or> c = 0x00A0 \<or> c = 0x1680 \<or>
     (0x2000 \<le> c \<and> c \<le> 0x200A) \<or> c = 0x2028 \<or> c = 0x2029 \<or> c = 0x202F \<or>
     c = 0x205F \<or> c = 0x3000 \<or> c = 0xFEFF"

definition trim :: "jsstring \<Rightarrow> jsstring" where
  "trim s = rev (dropWhile is_js_space (rev (dropWhile is_js_space s)))"

text \<open>\<open>Array.prototype.join\<close> on an array of strings.\<close>

fun join :: "jsstring \<Rightarrow> jsstring list \<Rightarrow> jsstring" where
  "join sep [] = []"
| "join sep [x] = x"
| "join sep (x # y # ys) = x @ sep @ join sep (y # ys)"

text \<open>\<open>String.prototype.includes\<close>: the needle occurs at some position.\<close>

fun str_includes :: "jsstring \<Rightarrow> jsstring \<Rightarrow> bool" where
  "str_includes [] needle = (needle = [])"
| "str_includes (c # s) needle = (take (length needle) (c # s) = needle \<or> str_includes s needle)"

section \<open>ASIN validation (models/book.ts)\<close>

text \<open>
  The thrown values of the modelled code. Each constructor stands for one
  \<open>throw new Error(...)\<close> of the source; the message is given beside it.
\<close>

datatype error =
    AsinInvalid                  \<comment> \<open>validateAsin: the ASIN is empty\<close>
  | AsinFormat jsstring          \<comment> \<open>validateAsin: invalid ASIN format, with the ASIN\<close>
  | AsinMissing                  \<comment> \<open>extractSingleBookMetadata: no ASIN in the element\<close>
  | TitleMissing                 \<comment> \<open>extractSingleBookMetadata: no title found\<close>
  | TitleInvalid                 \<comment> \<open>extractTitle: the title is neither string nor object\<close>
  | BookValidationError string   \<comment> \<open>createSafeBook, createSafeCollection: the field\<close>

text \<open>
  A character class given by its ranges, and \<open>[...]{n}\<close>: the class matched exactly
  \<open>n\<close> times from the front of the input, returning the rest.
\<close>

definition in_ranges :: "(jschar \<times> jschar) list \<Rightarrow> jschar \<Rightarrow> bool" where
  "in_ranges rs c = list_ex (\<lambda>(lo, hi). lo \<le> c \<and> c \<le> hi) rs"

fun match_class_times :: "(jschar \<times> jschar) list \<Rightarrow> nat \<Rightarrow> jsstring \<Rightarrow> jsstring option" where
  "match_class_times rs 0 s = Some s"
| "match_class_times rs (Suc n) [] = None"
| "match_class_times rs (Suc n) (c # s) =
     (if in_ranges rs c then match_class_times rs n s else None)"

text \<open>
  \<open>ASIN_PATTERN = /^[A-Z0-9]{10}$/\<close> and its \<open>test\<close>. The pattern has no flags:
  \<open>^\<close> anchors at the first code unit and \<open>$\<close> at the end of the input.
\<close>

definition ASIN_PATTERN :: "jsstring \<Rightarrow> bool" where
  "ASIN_PATTERN s \<longleftrightarrow>
     match_class_times [(of_char CHR ''A'', of_char CHR ''Z''), (of_char CHR ''0'', of_char CHR ''9'')] 10 s
       = Some []"

definition validateAsin :: "jsstring \<Rightarrow> error + bool" where
  "validateAsin asin =
     (if asin = [] then Inl AsinInvalid
      else if \<not> ASIN_PATTERN asin then Inl (AsinFormat asin)
      else Inr True)"

text \<open>The characters the specification allows in an ASIN.\<close>

definition is_upper_or_digit :: "jschar \<Rightarrow> bool" where
  "is_upper_or_digit c \<longleftrightarrow>
     (of_char CHR ''A'' \<le> c \<and> c \<le> of_char CHR ''Z'') \<or> (of_char CHR ''0'' \<le> c \<and> c \<le> of_char CHR ''9'')"

section \<open>The data model (models/book.ts)\<close>

datatype BookOriginType = Purchase | KindleUnlimited

text \<open>\<open>BookMetadata\<close>: one record extracted from the XML metadata file.\<close>

record BookMetadata =
  md_asin :: jsstring
  md_title :: jsstring
  md_titlePronunciation :: "jsstring option"
  md_author :: jsstring
  md_authorPronunciation :: "jsstring option"
  md_publisher :: "jsstring option"
  md_publicationDate :: "jsstring option"
  md_purchaseDate :: "jsstring option"
  md_contentType :: "jsstring option"
  md_mimeType :: "jsstring option"
  md_originType :: "BookOriginType option"

text \<open>\<open>Book\<close>: the integrated book record.\<close>

record Book =
  asin :: jsstring
  title :: jsstring
  author :: jsstring
  collections :: "jsstring list"
  tags :: "jsstring list option"
  coverUrl :: "jsstring option"
  publisher :: "jsstring option"
  publicationDate :: "jsstring option"
  purchaseDate :: "jsstring option"

text \<open>
  \<open>Partial<Book>\<close>, the argument of \<open>createSafeBook\<close>: every field may be
  \<open>undefined\<close>.
\<close>

record PartialBook =
  p_asin :: "jsstring option"
  p_title :: "jsstring option"
  p_author :: "jsstring option"
  p_collections :: "jsstring list option"
  p_tags :: "jsstring list option"
  p_coverUrl :: "jsstring option"
  p_publisher :: "jsstring option"
  p_publicationDate :: "jsstring option"
  p_purchaseDate :: "jsstring option"

text \<open>
  \<open>Collection\<close> (and the structurally equal \<open>KindleCollection\<close> of the SQLite
  parser). The book count is a JavaScript number; the counts of this program are
  integers, possibly negative on input.
\<close>

record Collection =
  c_id :: jsstring
  c_name :: jsstring
  bookCount :: int
  lastUpdated :: "jsstring option"

record PartialCollection =
  pc_id :: "jsstring option"
  pc_name :: "jsstring option"
  pc_bookCount :: "int option"
  pc_lastUpdated :: "jsstring option"

text \<open>\<open>BookCollectionAssociation\<close>: one row of the association table.\<close>

record Association =
  bookAsin :: jsstring
  collectionId :: jsstring

text \<open>JavaScript truthiness of an optional string: defined and not empty.\<close>

definition truthy :: "jsstring option \<Rightarrow> bool" where
  "truthy v \<longleftrightarrow> (case v of None \<Rightarrow> False | Some s \<Rightarrow> s \<noteq> [])"

definition isValidBook :: "Book \<Rightarrow> bool" where
  "isValidBook book \<longleftrightarrow>
     (if asin book = [] then False
      else if title book = [] then False
      else if author book = [] then False
      else (case validateAsin (asin book) of Inl e \<Rightarrow> False | Inr b \<Rightarrow> True))"

definition isValidCollection :: "Collection \<Rightarrow> bool" where
  "isValidCollection collection \<longleftrightarrow>
     (if c_id collection = [] then False
      else if c_name collection = [] then False
      else if bookCount collection < 0 then False
      else True)"

definition createSafeBook :: "PartialBook \<Rightarrow> error + Book" where
  "createSafeBook data =
     (if \<not> truthy (p_asin data) then Inl (BookValidationError ''asin'')
      else if \<not> truthy (p_title data) then Inl (BookValidationError ''title'')
      else if \<not> truthy (p_author data) then Inl (BookValidationError ''author'')
      else case validateAsin (the (p_asin data)) of
        Inl e \<Rightarrow> Inl e
      | Inr ok \<Rightarrow>
          Inr \<lparr> asin = the (p_asin data),
                title = trim (the (p_title data)),
                author = trim (the (p_author data)),
                collections =
                  filter (\<lambda>c. trim c \<noteq> [])
                    (case p_collections data of None \<Rightarrow> [] | Some cs \<Rightarrow> cs),
                tags =
                  (case p_tags data of None \<Rightarrow> None
                   | Some ts \<Rightarrow> Some (filter (\<lambda>tag. trim tag \<noteq> []) ts)),
                coverUrl =
                  (if truthy (p_coverUrl data) then map_option trim (p_coverUrl data) else None),
                publisher = map_option trim (p_publisher data),
                publicationDate = map_option trim (p_publicationDate data),
                purchaseDate = map_option trim (p_purchaseDate data) \<rparr>)"

definition createSafeCollection :: "PartialCollection \<Rightarrow> error + Collection" where
  "createSafeCollection data =
     (if \<not> truthy (pc_id data) then Inl (BookValidationError ''id'')
      else if \<not> truthy (pc_name data) then Inl (BookValidationError ''name'')
      else
        let bookCount' = (case pc_bookCount data of Some n \<Rightarrow> n | None \<Rightarrow> 0)
        in Inr \<lparr> c_id = trim (the (pc_id data)),
                   c_name = trim (the (pc_name data)),
                   bookCount = max 0 bookCount',
                   lastUpdated = map_option trim (pc_lastUpdated data) \<rparr>)"

section \<open>Metadata extraction (services/kindleParser.ts)\<close>

text \<open>
  The shapes xml2js gives a text element: a plain string, or an object with the
  optional inline text \<open>_\<close> and the optional \<open>pronunciation\<close> attribute under
  \<open>$\<close>.
\<close>

datatype text_node = Str jsstring | Node "jsstring option" "jsstring option"

text \<open>\<open>authors.author\<close>: one element or an array of elements.\<close>

datatype author_field = AuthorOne text_node | AuthorMany "text_node list"

text \<open>\<open>origins.origin\<close>: one object or an array of objects, each with its \<open>type\<close>.\<close>

datatype origin_field = OriginOne "jsstring option" | OriginMany "jsstring option list"

text \<open>\<open>MetadataElement\<close>: one \<open>meta_data\<close> element of the parsed document.\<close>

record MetadataElement =
  ASIN :: "jsstring option"
  el_title :: "text_node option"
  authors :: "author_field option"
  publishers :: "jsstring option"
  publication_date :: "jsstring option"
  purchase_date :: "jsstring option"
  cde_contenttype :: "jsstring option"
  content_type :: "jsstring option"
  origins :: "origin_field option"

text \<open>\<open>Object.prototype.toString\<close> of a plain object.\<close>

definition object_toString :: jsstring where
  "object_toString = js ''[object Object]''"

text \<open>\<open>node._ || node.toString()\<close>\<close>

definition node_text :: "jsstring option \<Rightarrow> jsstring" where
  "node_text u = (if truthy u then the u else object_toString)"

definition extractTitle :: "MetadataElement \<Rightarrow> error + (jsstring \<times> jsstring option)" where
  "extractTitle metadata =
     (case el_title metadata of
        Some (Str s) \<Rightarrow> Inr (trim s, None)
      | Some (Node u p) \<Rightarrow> Inr (trim (node_text u), map_option trim p)
      | None \<Rightarrow> Inl TitleInvalid)"

fun extractSingleAuthor :: "text_node \<Rightarrow> jsstring option \<times> jsstring option" where
  "extractSingleAuthor (Str s) = (Some (trim s), None)"
| "extractSingleAuthor (Node u p) = (Some (trim (node_text u)), map_option trim p)"

text \<open>
  The loop over an author array: a name is kept when it is not empty, and its
  pronunciation when that is not empty either.
\<close>

fun collect_authors :: "text_node list \<Rightarrow> jsstring list \<times> jsstring list" where
  "collect_authors [] = ([], [])"
| "collect_authors (auth # rest) =
     (let (name, pronunciation) = extractSingleAuthor auth;
          (names, pronunciations) = collect_authors rest
      in if truthy name
         then (the name # names,
               if truthy pronunciation then the pronunciation # pronunciations
               else pronunciations)
         else (names, pronunciations))"

definition extractAuthor :: "MetadataElement \<Rightarrow> jsstring option \<times> jsstring option" where
  "extractAuthor metadata =
     (case authors metadata of
        None \<Rightarrow> (None, None)
      | Some (AuthorOne (Str s)) \<Rightarrow> (if s = [] then (None, None) else (Some (trim s), None))
      | Some (AuthorMany auths) \<Rightarrow>
          (let (names, pronunciations) = collect_authors auths
           in (if names \<noteq> [] then Some (join (js '', '') names) else None,
               if pronunciations \<noteq> [] then Some (join (js '', '') pronunciations) else None))
      | Some (AuthorOne (Node u p)) \<Rightarrow> extractSingleAuthor (Node u p))"

definition extractPublisher :: "MetadataElement \<Rightarrow> jsstring option" where
  "extractPublisher metadata = map_option trim (publishers metadata)"

text \<open>
  \<open>extractDate\<close>. Whether \<open>new Date(s)\<close> is a valid date is decided by the
  JavaScript engine; the predicate \<open>parses\<close> stands for it.
\<close>

definition extractDate :: "(jsstring \<Rightarrow> bool) \<Rightarrow> jsstring option \<Rightarrow> jsstring option" where
  "extractDate parses dateString =
     (if \<not> truthy dateString then None
      else let trimmed = trim (the dateString)
           in if trimmed = [] then None
              else if \<not> parses trimmed then None
              else Some trimmed)"

definition origin_of_tag :: "jsstring option \<Rightarrow> BookOriginType option" where
  "origin_of_tag ty =
     (if ty = Some (js ''Purchase'') then Some Purchase
      else if ty = Some (js ''KindleUnlimited'') then Some KindleUnlimited
      else None)"

definition extractOriginType :: "MetadataElement \<Rightarrow> BookOriginType option" where
  "extractOriginType metadata =
     (case origins metadata of
        None \<Rightarrow> None
      | Some (OriginOne ty) \<Rightarrow> origin_of_tag ty
      | Some (OriginMany []) \<Rightarrow> None
      | Some (OriginMany (ty # rest)) \<Rightarrow> origin_of_tag ty)"

text \<open>The placeholder author, U+4E0D U+660E.\<close>

definition unknown_author :: jsstring where
  "unknown_author = [0x4E0D, 0x660E]"

text \<open>
  \<open>extractSingleBookMetadata\<close>: every throw inside is caught by the function itself,
  which then returns \<open>null\<close>.
\<close>

definition extractSingleBookMetadata_try ::
    "(jsstring \<Rightarrow> bool) \<Rightarrow> MetadataElement \<Rightarrow> error + BookMetadata" where
  "extractSingleBookMetadata_try parses metadata =
     (if \<not> truthy (ASIN metadata) then Inl AsinMissing
      else
        let asin' = trim (the (ASIN metadata)) in
        case validateAsin asin' of
          Inl e \<Rightarrow> Inl e
        | Inr ok \<Rightarrow>
           (case extractTitle metadata of
              Inl e \<Rightarrow> Inl e
            | Inr (title', titlePronunciation) \<Rightarrow>
                if title' = [] then Inl TitleMissing
                else
                  let (author', authorPronunciation) = extractAuthor metadata in
                  Inr \<lparr> md_asin = asin',
                        md_title = title',
                        md_titlePronunciation = titlePronunciation,
                        md_author = (if truthy author' then the author' else unknown_author),
                        md_authorPronunciation = authorPronunciation,
                        md_publisher = extractPublisher metadata,
                        md_publicationDate = extractDate parses (publication_date metadata),
                        md_purchaseDate = extractDate parses (purchase_date metadata),
                        md_contentType = cde_contenttype metadata,
                        md_mimeType = content_type metadata,
                        md_originType = extractOriginType metadata \<rparr>))"

definition extractSingleBookMetadata ::
    "(jsstring \<Rightarrow> bool) \<Rightarrow> MetadataElement \<Rightarrow> BookMetadata option" where
  "extractSingleBookMetadata parses metadata =
     (case extractSingleBookMetadata_try parses metadata of
        Inl e \<Rightarrow> None
      | Inr book \<Rightarrow> Some book)"

text \<open>\<open>processMetadataChunk\<close>: the books of one chunk are pushed in order.\<close>

fun processMetadataChunk ::
    "(jsstring \<Rightarrow> bool) \<Rightarrow> MetadataElement list \<Rightarrow> BookMetadata list \<Rightarrow> BookMetadata list" where
  "processMetadataChunk parses [] books = books"
| "processMetadataChunk parses (metadata # chunk) books =
     (case extractSingleBookMetadata parses metadata of
        Some book \<Rightarrow> processMetadataChunk parses chunk (books @ [book])
      | None \<Rightarrow> processMetadataChunk parses chunk books)"

text \<open>
  \<open>processLargeMetadataList\<close>: the loop \<open>for (i = 0; i < length; i += CHUNK_SIZE)\<close>
  over slices of 100 elements, from index \<open>i\<close>.
\<close>

definition CHUNK_SIZE :: nat where
  "CHUNK_SIZE = 100"

function processLargeMetadataList_from ::
    "(jsstring \<Rightarrow> bool) \<Rightarrow> MetadataElement list \<Rightarrow> nat \<Rightarrow> BookMetadata list \<Rightarrow> BookMetadata list" where
  "processLargeMetadataList_from parses metadataList i books =
     (if i < length metadataList
      then processLargeMetadataList_from parses metadataList (i + CHUNK_SIZE)
             (processMetadataChunk parses (take CHUNK_SIZE (drop i metadataList)) books)
      else books)"
  by pat_completeness auto
termination
  by (relation "measure (\<lambda>(parses, metadataList, i, books). length metadataList - i)")
     (auto simp: CHUNK_SIZE_def)

declare processLargeMetadataList_from.simps [simp del]

text \<open>
  \<open>extractBookMetadata\<close> on the list of \<open>meta_data\<close> elements (a single element
  is a list of one).
\<close>

definition extractBookMetadata ::
    "(jsstring \<Rightarrow> bool) \<Rightarrow> MetadataElement list \<Rightarrow> BookMetadata list" where
  "extractBookMetadata parses metadataList =
     processLargeMetadataList_from parses metadataList 0 []"

section \<open>Book counts of collections (services/collectionParser.ts)\<close>

text \<open>
  \<open>updateBookCounts\<close>: a first loop counts the associations of each collection
  identifier in a \<open>Map\<close>, a second loop writes the count (or 0 where the map has no
  entry) into each collection. The source updates the collections in place; the model
  returns the updated list.
\<close>

fun count_associations :: "(jsstring \<rightharpoonup> int) \<Rightarrow> Association list \<Rightarrow> (jsstring \<rightharpoonup> int)" where
  "count_associations bookCountMap [] = bookCountMap"
| "count_associations bookCountMap (association # rest) =
     (let count = (case bookCountMap (collectionId association) of None \<Rightarrow> 0 | Some n \<Rightarrow> n)
      in count_associations (bookCountMap(collectionId association \<mapsto> count + 1)) rest)"

definition updateBookCounts :: "Collection list \<Rightarrow> Association list \<Rightarrow> Collection list" where
  "updateBookCounts cs associations =
     (let bookCountMap = count_associations Map.empty associations
      in map (\<lambda>collection.
                collection\<lparr>bookCount :=
                  (case bookCountMap (c_id collection) of None \<Rightarrow> 0 | Some n \<Rightarrow> n)\<rparr>) cs)"

section \<open>Integration (services/bookDataService.ts)\<close>

text \<open>
  \<open>buildASINCollectionMapping\<close>: first the map from collection identifier to name
  (a later collection with the same identifier overwrites an earlier one), then the
  map from ASIN to its collection names, in order of first appearance and without
  repetition. An association whose collection has no name, or an empty one, is skipped.
\<close>

fun collectionIdToName :: "(jsstring \<rightharpoonup> jsstring) \<Rightarrow> Collection list \<Rightarrow> (jsstring \<rightharpoonup> jsstring)" where
  "collectionIdToName m [] = m"
| "collectionIdToName m (collection # rest) =
     collectionIdToName (m(c_id collection \<mapsto> c_name collection)) rest"

definition add_association ::
    "(jsstring \<rightharpoonup> jsstring) \<Rightarrow> (jsstring \<rightharpoonup> jsstring list) \<Rightarrow> Association \<Rightarrow> (jsstring \<rightharpoonup> jsstring list)" where
  "add_association idToName asinToCollections association =
     (let collectionName = idToName (collectionId association) in
      if \<not> truthy collectionName then asinToCollections
      else
        let names = (case asinToCollections (bookAsin association) of None \<Rightarrow> [] | Some ns \<Rightarrow> ns)
        in asinToCollections(bookAsin association \<mapsto>
             (if the collectionName \<in> set names then names else names @ [the collectionName])))"

fun add_associations ::
    "(jsstring \<rightharpoonup> jsstring) \<Rightarrow> (jsstring \<rightharpoonup> jsstring list) \<Rightarrow> Association list \<Rightarrow> (jsstring \<rightharpoonup> jsstring list)" where
  "add_associations idToName asinToCollections [] = asinToCollections"
| "add_associations idToName asinToCollections (association # rest) =
     add_associations idToName (add_association idToName asinToCollections association) rest"

definition buildASINCollectionMapping ::
    "Collection list \<Rightarrow> Association list \<Rightarrow> (jsstring \<rightharpoonup> jsstring list)" where
  "buildASINCollectionMapping cs associations =
     add_associations (collectionIdToName Map.empty cs) Map.empty associations"

text \<open>
  The state of the loop of \<open>mergeBookData\<close> over the XML books: the books pushed so
  far, the set of ASINs seen, and the two counters.
\<close>

record merge_state =
  ms_books :: "Book list"
  seenASINs :: "jsstring set"
  ms_duplicateCount :: nat
  ms_invalidCount :: nat

text \<open>The argument \<open>mergeBookData\<close> builds for \<open>createSafeBook\<close>.\<close>

definition book_input :: "(jsstring \<rightharpoonup> jsstring list) \<Rightarrow> BookMetadata \<Rightarrow> PartialBook" where
  "book_input asinToCollections xmlBook =
     \<lparr> p_asin = Some (md_asin xmlBook),
       p_title = Some (md_title xmlBook),
       p_author = Some (md_author xmlBook),
       p_collections =
         Some (case asinToCollections (md_asin xmlBook) of None \<Rightarrow> [] | Some ns \<Rightarrow> ns),
       p_tags = None,
       p_coverUrl = None,
       p_publisher = md_publisher xmlBook,
       p_publicationDate = md_publicationDate xmlBook,
       p_purchaseDate = md_purchaseDate xmlBook \<rparr>"

text \<open>
  One iteration: a seen ASIN counts as a duplicate; otherwise the book is created,
  pushed and its ASIN recorded, or the throw of \<open>createSafeBook\<close> is caught and counts
  as invalid.
\<close>

definition merge_step :: "(jsstring \<rightharpoonup> jsstring list) \<Rightarrow> merge_state \<Rightarrow> BookMetadata \<Rightarrow> merge_state" where
  "merge_step asinToCollections st xmlBook =
     (if md_asin xmlBook \<in> seenASINs st
      then st\<lparr>ms_duplicateCount := ms_duplicateCount st + 1\<rparr>
      else case createSafeBook (book_input asinToCollections xmlBook) of
        Inr book \<Rightarrow>
          st\<lparr>ms_books := ms_books st @ [book],
             seenASINs := insert (md_asin xmlBook) (seenASINs st)\<rparr>
      | Inl e \<Rightarrow> st\<lparr>ms_invalidCount := ms_invalidCount st + 1\<rparr>)"

fun merge_loop :: "(jsstring \<rightharpoonup> jsstring list) \<Rightarrow> merge_state \<Rightarrow> BookMetadata list \<Rightarrow> merge_state" where
  "merge_loop asinToCollections st [] = st"
| "merge_loop asinToCollections st (xmlBook # rest) =
     merge_loop asinToCollections (merge_step asinToCollections st xmlBook) rest"

text \<open>The second loop: a collection that \<open>createSafeCollection\<close> rejects is skipped.\<close>

fun convert_collections :: "Collection list \<Rightarrow> Collection list" where
  "convert_collections [] = []"
| "convert_collections (sqliteCollection # rest) =
     (case createSafeCollection
             \<lparr> pc_id = Some (c_id sqliteCollection),
               pc_name = Some (c_name sqliteCollection),
               pc_bookCount = Some (bookCount sqliteCollection),
               pc_lastUpdated = lastUpdated sqliteCollection \<rparr> of
        Inr collection \<Rightarrow> collection # convert_collections rest
      | Inl e \<Rightarrow> convert_collections rest)"

record merge_result =
  mr_books :: "Book list"
  mr_collections :: "Collection list"
  duplicateCount :: nat
  invalidCount :: nat

definition mergeBookData ::
    "BookMetadata list \<Rightarrow> Collection list \<Rightarrow> Association list \<Rightarrow> merge_result" where
  "mergeBookData xmlBooks cs associations =
     (let asinToCollections = buildASINCollectionMapping cs associations;
          st = merge_loop asinToCollections
                 \<lparr> ms_books = [], seenASINs = {}, ms_duplicateCount = 0, ms_invalidCount = 0 \<rparr>
                 xmlBooks
      in \<lparr> mr_books = ms_books st,
           mr_collections = convert_collections cs,
           duplicateCount = ms_duplicateCount st,
           invalidCount = ms_invalidCount st \<rparr>)"

text \<open>
  The diagnostics of \<open>validateIntegratedData\<close>: one entry for each rejected book or
  collection, with its identifier (or the text \<open>unknown\<close> when that is empty).
\<close>

datatype diagnostic = InvalidBookData jsstring | InvalidCollectionData jsstring

definition or_unknown :: "jsstring \<Rightarrow> jsstring" where
  "or_unknown s = (if s = [] then js ''unknown'' else s)"

record validation_result =
  validBooks :: "Book list"
  validCollections :: "Collection list"
  v_errors :: "diagnostic list"

definition validateIntegratedData :: "Book list \<Rightarrow> Collection list \<Rightarrow> validation_result" where
  "validateIntegratedData bs cs =
     \<lparr> validBooks = filter isValidBook bs,
       validCollections = filter isValidCollection cs,
       v_errors =
         map (\<lambda>book. InvalidBookData (or_unknown (asin book))) (filter (\<lambda>book. \<not> isValidBook book) bs) @
         map (\<lambda>collection. InvalidCollectionData (or_unknown (c_id collection)))
           (filter (\<lambda>collection. \<not> isValidCollection collection) cs) \<rparr>"

text \<open>
  \<open>IntegrationStatistics\<close>, without the wall-clock timings, and the result of a run.
\<close>

record IntegrationStatistics =
  xmlBookCount :: nat
  sqliteCollectionCount :: nat
  finalBookCount :: nat
  finalCollectionCount :: nat
  duplicateBookCount :: nat
  invalidBookCount :: nat

record BookDataIntegrationResult =
  books :: "Book list"
  res_collections :: "Collection list"
  statistics :: IntegrationStatistics
  errors :: "diagnostic list option"

text \<open>
  \<open>integrateAllBookData\<close> after path detection and the reading of the two files,
  which can only fail the whole run: from the \<open>meta_data\<close> elements of the parsed
  document and the collections and associations read from the store.
\<close>

definition integrateAllBookData ::
    "(jsstring \<Rightarrow> bool) \<Rightarrow> MetadataElement list \<Rightarrow> Collection list \<Rightarrow> Association list
      \<Rightarrow> BookDataIntegrationResult" where
  "integrateAllBookData parses metadataList sqliteCollections associations =
     (let xmlBooks = extractBookMetadata parses metadataList;
          counted = updateBookCounts sqliteCollections associations;
          merged = mergeBookData xmlBooks counted associations;
          validated = validateIntegratedData (mr_books merged) (mr_collections merged)
      in \<lparr> books = validBooks validated,
           res_collections = validCollections validated,
           statistics =
             \<lparr> xmlBookCount = length xmlBooks,
               sqliteCollectionCount = length counted,
               finalBookCount = length (validBooks validated),
               finalCollectionCount = length (validCollections validated),
               duplicateBookCount = duplicateCount merged,
               invalidBookCount = invalidCount merged \<rparr>,
           errors = (if v_errors validated \<noteq> [] then Some (v_errors validated) else None) \<rparr>)"

section \<open>Path detection (services/pathDetector.ts)\<close>

text \<open>The source tag of a result or of a persisted configuration.\<close>

datatype path_source = Auto | Manual | Env

definition source_tag :: "path_source \<Rightarrow> jsstring" where
  "source_tag s = (case s of Auto \<Rightarrow> js ''auto'' | Manual \<Rightarrow> js ''manual'' | Env \<Rightarrow> js ''env'')"

record KindleCacheFiles =
  xmlPath :: jsstring
  dbPath :: jsstring

text \<open>
  The failures of path detection. The source carries them as message strings; each
  constructor stands for one message.
\<close>

datatype path_error =
    FileNotFound                    \<comment> \<open>validateFile: ENOENT\<close>
  | FileAccessDenied                \<comment> \<open>validateFile: EACCES\<close>
  | FileNotRegular                  \<comment> \<open>validateFile: not a regular file\<close>
  | FileEmpty                       \<comment> \<open>validateFile: size 0\<close>
  | PathCheckFailed                 \<comment> \<open>validateKindlePath: access or stat of the directory threw\<close>
  | NotADirectory jsstring          \<comment> \<open>validateKindlePath: the base path is no directory\<close>
  | XmlNotFound jsstring            \<comment> \<open>validateKindlePath: the XML file was rejected\<close>
  | DbNotFound jsstring             \<comment> \<open>validateKindlePath: the database file was rejected\<close>
  | PathNotGiven                    \<comment> \<open>validateAndNormalizePath: empty input\<close>
  | SecurityViolation               \<comment> \<open>validateAndNormalizePath: the path contains ..\<close>
  | InvalidCharacters               \<comment> \<open>validateAndNormalizePath: a character of \<open><>:"|?*\<close>\<close>
  | ConfigNotFound                  \<comment> \<open>loadCachedConfiguration: no usable configuration file\<close>
  | CacheExpired                    \<comment> \<open>loadCachedConfiguration: older than 24 hours\<close>
  | ConfigSaveFailed                \<comment> \<open>saveConfiguration: mkdir or writeFile threw\<close>
  | KindleFilesNotFound "jsstring list"  \<comment> \<open>detectKindlePaths: no candidate, with the paths tried\<close>
  | DetectionFailed path_error      \<comment> \<open>detectKindlePaths: the outer catch\<close>

record PathDetectionResult =
  success :: bool
  paths :: "KindleCacheFiles option"
  pd_error :: "path_error option"
  searchedPaths :: "jsstring list"
  source :: path_source

text \<open>
  \<open>PathConfiguration\<close>, the persisted resolution. \<open>lastValidated\<close> is an ISO
  timestamp in the file; here it is the instant it denotes, in milliseconds.
\<close>

record PathConfiguration =
  kindleCachePath :: jsstring
  lastValidated :: int
  cfg_source :: path_source

text \<open>
  The configuration file \<open>paths.json\<close>: absent, present but not readable as a
  configuration (no JSON, a field of the wrong type, a date that does not parse), or
  holding a configuration.
\<close>

datatype config_file = NoFile | Unreadable | Stored PathConfiguration

text \<open>What \<open>fs.stat\<close> tells of a path, and whether the process may read it.\<close>

record file_stat =
  isFile :: bool
  isDirectory :: bool
  st_size :: nat
  readable :: bool

text \<open>
  The host a call runs on: the environment variables, the file system (a path that
  exists has a \<open>file_stat\<close>), the functions \<open>path.resolve\<close> and \<open>path.join\<close> of
  the platform, the clock (milliseconds) and whether the configuration file can be
  written. The configuration file itself is state, passed and returned beside it.
\<close>

record host =
  KINDLE_XML_PATH :: "jsstring option"
  KINDLE_DB_PATH :: "jsstring option"
  KINDLE_CACHE_PATH :: "jsstring option"
  USERPROFILE :: "jsstring option"
  LOCALAPPDATA :: "jsstring option"
  files :: "jsstring \<Rightarrow> file_stat option"
  resolve :: "jsstring \<Rightarrow> jsstring"
  path_join :: "jsstring list \<Rightarrow> jsstring"
  now :: int
  config_writable :: bool

definition TARGET_XML :: jsstring where
  "TARGET_XML = js ''KindleSyncMetadataCache.xml''"

definition TARGET_DB :: jsstring where
  "TARGET_DB = js ''synced_collections.db''"

text \<open>
  \<open>validateFile\<close>: the file exists, can be read, is a regular file and is not empty.
\<close>

definition validateFile :: "host \<Rightarrow> jsstring \<Rightarrow> path_error + unit" where
  "validateFile h filePath =
     (case files h filePath of
        None \<Rightarrow> Inl FileNotFound
      | Some stats \<Rightarrow>
          if \<not> readable stats then Inl FileAccessDenied
          else if \<not> isFile stats then Inl FileNotRegular
          else if st_size stats = 0 then Inl FileEmpty
          else Inr ())"

text \<open>
  \<open>validateKindlePath\<close>, on the base path of the candidate (its source tag is not
  read): the directory exists and is a directory, and both target files pass
  \<open>validateFile\<close>.
\<close>

definition validateKindlePath :: "host \<Rightarrow> jsstring \<Rightarrow> path_error + KindleCacheFiles" where
  "validateKindlePath h base =
     (case files h base of
        None \<Rightarrow> Inl PathCheckFailed
      | Some stats \<Rightarrow>
          if \<not> isDirectory stats then Inl (NotADirectory base)
          else
            let xmlPath' = path_join h [base, TARGET_XML];
                dbPath' = path_join h [base, js ''db'', TARGET_DB]
            in case validateFile h xmlPath' of
                 Inl e \<Rightarrow> Inl (XmlNotFound xmlPath')
               | Inr u \<Rightarrow>
                  (case validateFile h dbPath' of
                     Inl e \<Rightarrow> Inl (DbNotFound dbPath')
                   | Inr u \<Rightarrow> Inr \<lparr> xmlPath = xmlPath', dbPath = dbPath' \<rparr>))"

text \<open>
  \<open>isValidConfiguration\<close> and \<open>getCurrentConfiguration\<close>. Of the checks of
  \<open>isValidConfiguration\<close> only the non-empty path is left to check on a
  \<open>PathConfiguration\<close>; a file that fails another is \<open>Unreadable\<close>.
\<close>

definition isValidConfiguration :: "PathConfiguration \<Rightarrow> bool" where
  "isValidConfiguration config \<longleftrightarrow> kindleCachePath config \<noteq> []"

definition getCurrentConfiguration :: "config_file \<Rightarrow> PathConfiguration option" where
  "getCurrentConfiguration cf =
     (case cf of
        NoFile \<Rightarrow> None
      | Unreadable \<Rightarrow> None
      | Stored config \<Rightarrow> if isValidConfiguration config then Some config else None)"

text \<open>
  \<open>loadCachedConfiguration\<close>. The source computes
  \<open>hoursDiff = (now - lastValidated) / (1000 * 60 * 60)\<close> in floating point and
  tests \<open>hoursDiff > 24\<close>; on integral milliseconds that is
  \<open>now - lastValidated > 24 * (1000 * 60 * 60)\<close>.
\<close>

definition loadCachedConfiguration :: "host \<Rightarrow> config_file \<Rightarrow> PathDetectionResult" where
  "loadCachedConfiguration h cf =
     (case getCurrentConfiguration cf of
        None \<Rightarrow>
          \<lparr> success = False, paths = None, pd_error = Some ConfigNotFound,
            searchedPaths = [], source = Auto \<rparr>
      | Some config \<Rightarrow>
          if now h - lastValidated config > 24 * (1000 * 60 * 60)
          then \<lparr> success = False, paths = None, pd_error = Some CacheExpired,
                 searchedPaths = [], source = Auto \<rparr>
          else case validateKindlePath h (kindleCachePath config) of
            Inr ps \<Rightarrow>
              \<lparr> success = True, paths = Some ps, pd_error = None,
                searchedPaths = [kindleCachePath config], source = cfg_source config \<rparr>
          | Inl e \<Rightarrow>
              \<lparr> success = False, paths = None, pd_error = Some e,
                searchedPaths = [kindleCachePath config], source = cfg_source config \<rparr>)"

definition saveConfiguration :: "host \<Rightarrow> PathConfiguration \<Rightarrow> config_file \<Rightarrow> path_error + config_file" where
  "saveConfiguration h config cf =
     (if config_writable h then Inr (Stored config) else Inl ConfigSaveFailed)"

record candidate =
  basePath :: jsstring
  c_source :: path_source

text \<open>\<open>Array.prototype.findIndex\<close>, with \<open>None\<close> for -1.\<close>

fun findIndex :: "('a \<Rightarrow> bool) \<Rightarrow> 'a list \<Rightarrow> nat option" where
  "findIndex P [] = None"
| "findIndex P (x # xs) = (if P x then Some 0 else map_option Suc (findIndex P xs))"

text \<open>
  \<open>generatePathCandidates\<close>: the directory override, the directory under the user
  profile, the directory under the local application data; then only the first
  candidate of each base path is kept.
\<close>

definition generatePathCandidates :: "host \<Rightarrow> candidate list" where
  "generatePathCandidates h =
     (let candidates =
            (if truthy (KINDLE_CACHE_PATH h)
             then [\<lparr> basePath = resolve h (the (KINDLE_CACHE_PATH h)), c_source = Env \<rparr>] else []) @
            (if truthy (USERPROFILE h)
             then [\<lparr> basePath = path_join h [the (USERPROFILE h), js ''AppData'', js ''Local'',
                                              js ''Amazon'', js ''Kindle'', js ''Cache''],
                     c_source = Auto \<rparr>] else []) @
            (if truthy (LOCALAPPDATA h)
             then [\<lparr> basePath = path_join h [the (LOCALAPPDATA h), js ''Amazon'', js ''Kindle'',
                                              js ''Cache''],
                     c_source = Auto \<rparr>] else [])
      in map snd
           (filter (\<lambda>(index, c). findIndex (\<lambda>d. basePath d = basePath c) candidates = Some index)
              (enumerate 0 candidates)))"

text \<open>
  The first block of \<open>detectKindlePaths\<close>: both per-file overrides are set, both
  paths can be \<open>stat\<close>ed and both are regular files. A throw of \<open>stat\<close> is caught
  and detection goes on.
\<close>

definition env_override :: "host \<Rightarrow> PathDetectionResult option" where
  "env_override h =
     (if truthy (KINDLE_XML_PATH h) \<and> truthy (KINDLE_DB_PATH h)
      then
        let xmlPath' = resolve h (the (KINDLE_XML_PATH h));
            dbPath' = resolve h (the (KINDLE_DB_PATH h))
        in case files h xmlPath' of
             None \<Rightarrow> None
           | Some xmlStats \<Rightarrow>
              (case files h dbPath' of
                 None \<Rightarrow> None
               | Some dbStats \<Rightarrow>
                   if isFile xmlStats \<and> isFile dbStats
                   then Some \<lparr> success = True,
                               paths = Some \<lparr> xmlPath = xmlPath', dbPath = dbPath' \<rparr>,
                               pd_error = None, searchedPaths = [xmlPath', dbPath'], source = Env \<rparr>
                   else None)
      else None)"

text \<open>The loop over the candidates, up to the first that validates.\<close>

fun first_valid_candidate :: "host \<Rightarrow> candidate list \<Rightarrow> (candidate \<times> KindleCacheFiles) option" where
  "first_valid_candidate h [] = None"
| "first_valid_candidate h (c # rest) =
     (case validateKindlePath h (basePath c) of
        Inr ps \<Rightarrow> Some (c, ps)
      | Inl e \<Rightarrow> first_valid_candidate h rest)"

text \<open>
  \<open>detectKindlePaths\<close>: the result and the configuration file after the call.
\<close>

definition detectKindlePaths :: "host \<Rightarrow> config_file \<Rightarrow> bool \<Rightarrow> PathDetectionResult \<times> config_file" where
  "detectKindlePaths h cf forceUpdate =
     (case env_override h of
        Some r \<Rightarrow> (r, cf)
      | None \<Rightarrow>
          if \<not> forceUpdate \<and> success (loadCachedConfiguration h cf)
          then (loadCachedConfiguration h cf, cf)
          else
            let pathCandidates = generatePathCandidates h
            in case first_valid_candidate h pathCandidates of
                 Some (c, ps) \<Rightarrow>
                  (case saveConfiguration h
                          \<lparr> kindleCachePath = basePath c, lastValidated = now h,
                            cfg_source = c_source c \<rparr> cf of
                     Inl e \<Rightarrow>
                       (\<lparr> success = False, paths = None, pd_error = Some (DetectionFailed e),
                          searchedPaths = [], source = Auto \<rparr>, cf)
                   | Inr cf' \<Rightarrow>
                       (\<lparr> success = True, paths = Some ps, pd_error = None,
                          searchedPaths = [basePath c], source = c_source c \<rparr>, cf'))
               | None \<Rightarrow>
                  (\<lparr> success = False, paths = None,
                     pd_error = Some (KindleFilesNotFound (map basePath pathCandidates)),
                     searchedPaths = map basePath pathCandidates, source = Auto \<rparr>, cf))"

text \<open>The characters of the class \<open>[<>:"|?*]\<close>.\<close>

definition invalidChars :: "jschar list" where
  "invalidChars = [0x3C, 0x3E, 0x3A, 0x22, 0x7C, 0x3F, 0x2A]"

definition validateAndNormalizePath :: "host \<Rightarrow> jsstring \<Rightarrow> path_error + jsstring" where
  "validateAndNormalizePath h inputPath =
     (if inputPath = [] then Inl PathNotGiven
      else
        let normalizedPath = resolve h (trim inputPath)
        in if str_includes normalizedPath (js ''..'') then Inl SecurityViolation
           else if list_ex (\<lambda>c. c \<in> set invalidChars) normalizedPath then Inl InvalidCharacters
           else Inr normalizedPath)"

text \<open>
  \<open>setManualPath\<close>: every throw (of normalisation, of saving) is caught and returned
  as a failure that lists the input as searched.
\<close>

definition setManualPath :: "host \<Rightarrow> config_file \<Rightarrow> jsstring \<Rightarrow> PathDetectionResult \<times> config_file" where
  "setManualPath h cf manualPath =
     (case validateAndNormalizePath h manualPath of
        Inl e \<Rightarrow>
          (\<lparr> success = False, paths = None, pd_error = Some e,
             searchedPaths = [manualPath], source = Manual \<rparr>, cf)
      | Inr normalizedPath \<Rightarrow>
         (case validateKindlePath h normalizedPath of
            Inr ps \<Rightarrow>
             (case saveConfiguration h
                     \<lparr> kindleCachePath = normalizedPath, lastValidated = now h,
                       cfg_source = Manual \<rparr> cf of
                Inl e \<Rightarrow>
                  (\<lparr> success = False, paths = None, pd_error = Some e,
                     searchedPaths = [manualPath], source = Manual \<rparr>, cf)
              | Inr cf' \<Rightarrow>
                  (\<lparr> success = True, paths = Some ps, pd_error = None,
                     searchedPaths = [normalizedPath], source = Manual \<rparr>, cf'))
          | Inl e \<Rightarrow>
             (\<lparr> success = False, paths = None, pd_error = Some e,
                searchedPaths = [normalizedPath], source = Manual \<rparr>, cf)))"

section \<open>The path functions of a POSIX host\<close>

text \<open>
  \<open>path.resolve\<close> and \<open>path.join\<close> belong to the Node.js runtime, not to the
  program; the model above takes them from the host. For the concrete hosts of the
  examples they are written out here after the POSIX implementation of Node.js
  (lib/path.js): \<open>normalizeString\<close> drops empty segments and \<open>.\<close>, and lets
  \<open>..\<close> remove the segment before it (above the root it is dropped, or kept when
  the path is relative).
\<close>

definition slash :: jschar where
  "slash = 0x2F"

fun split_on :: "jschar \<Rightarrow> jsstring \<Rightarrow> jsstring list" where
  "split_on sep [] = [[]]"
| "split_on sep (c # s) =
     (if c = sep then [] # split_on sep s
      else case split_on sep s of
             [] \<Rightarrow> [[c]]
           | seg # segs \<Rightarrow> (c # seg) # segs)"

definition norm_step :: "bool \<Rightarrow> jsstring list \<Rightarrow> jsstring \<Rightarrow> jsstring list" where
  "norm_step allowAboveRoot res seg =
     (if seg = [] \<or> seg = js ''.'' then res
      else if seg = js ''..''
      then (if res \<noteq> [] \<and> last res \<noteq> js ''..'' then butlast res
            else if allowAboveRoot then res @ [js ''..'']
            else res)
      else res @ [seg])"

definition normalizeString :: "bool \<Rightarrow> jsstring \<Rightarrow> jsstring" where
  "normalizeString allowAboveRoot path =
     join [slash] (foldl (norm_step allowAboveRoot) [] (split_on slash path))"

text \<open>\<open>path.posix.resolve\<close> of one argument, in the working directory \<open>cwd\<close>.\<close>

definition posix_resolve :: "jsstring \<Rightarrow> jsstring \<Rightarrow> jsstring" where
  "posix_resolve cwd p =
     (let resolvedPath =
            (if p = [] then cwd @ [slash]
             else if hd p = slash then p @ [slash]
             else cwd @ [slash] @ p @ [slash])
      in slash # normalizeString False resolvedPath)"

definition posix_normalize :: "jsstring \<Rightarrow> jsstring" where
  "posix_normalize path =
     (if path = [] then js ''.''
      else
        let isAbsolute = (hd path = slash);
            trailingSeparator = (last path = slash);
            p = normalizeString (\<not> isAbsolute) path
        in if p = []
           then (if isAbsolute then js ''/'' else if trailingSeparator then js ''./'' else js ''.'')
           else (if isAbsolute then [slash] else []) @ p @ (if trailingSeparator then [slash] else []))"

definition posix_join :: "jsstring list \<Rightarrow> jsstring" where
  "posix_join parts =
     (let joined = join [slash] (filter (\<lambda>arg. arg \<noteq> []) parts)
      in if joined = [] then js ''.'' else posix_normalize joined)"

section \<open>The result cache (services/bookService.ts)\<close>

definition CACHE_DURATION :: int where
  "CACHE_DURATION = 5 * 60 * 1000"

text \<open>The mutable fields of \<open>BookService\<close>; \<open>null\<close> is \<open>None\<close>.\<close>

record BookService =
  cachedBooks :: "Book list option"
  lastCacheTime :: int

text \<open>
  What \<open>getAllBooks\<close> throws: the error \<open>integrateAllBookData\<close> threw, passed on,
  or its own error carrying the diagnostics of the integration result.
\<close>

datatype 'e service_error =
    Thrown 'e
  | IntegrationFailed "diagnostic list"

text \<open>
  The outcome of one call: the books returned or the error thrown, the fields of the
  service after the call, and how often the call invoked \<open>integrateAllBookData\<close>.
\<close>

record 'e call_outcome =
  returned :: "'e service_error + Book list"
  after :: BookService
  pipeline_runs :: nat

text \<open>The test \<open>this.cachedBooks && now - this.lastCacheTime < this.CACHE_DURATION\<close>.\<close>

definition cache_valid :: "int \<Rightarrow> BookService \<Rightarrow> bool" where
  "cache_valid now' service \<longleftrightarrow>
     cachedBooks service \<noteq> None \<and> now' - lastCacheTime service < CACHE_DURATION"

text \<open>
  \<open>getAllBooks\<close> at the clock reading \<open>now'\<close>. \<open>run\<close> is what
  \<open>integrateAllBookData\<close> does when it is called: it throws, or it returns a result.
\<close>

definition getAllBooks ::
    "int \<Rightarrow> ('e + BookDataIntegrationResult) \<Rightarrow> BookService \<Rightarrow> 'e call_outcome" where
  "getAllBooks now' run service =
     (if cache_valid now' service
      then \<lparr> returned = Inr (the (cachedBooks service)), after = service, pipeline_runs = 0 \<rparr>
      else case run of
        Inl thrown \<Rightarrow> \<lparr> returned = Inl (Thrown thrown), after = service, pipeline_runs = 1 \<rparr>
      | Inr integrationResult \<Rightarrow>
          (case errors integrationResult of
             Some (e # es) \<Rightarrow>
               \<lparr> returned = Inl (IntegrationFailed (e # es)), after = service, pipeline_runs = 1 \<rparr>
           | _ \<Rightarrow>
               \<lparr> returned = Inr (books integrationResult),
                 after = \<lparr> cachedBooks = Some (books integrationResult), lastCacheTime = now' \<rparr>,
                 pipeline_runs = 1 \<rparr>))"


text \<open>
  \<open>getAllBooks\<close> is an async function. It reads the clock and tests the cache; on a
  miss it awaits \<open>integrateAllBookData\<close>, and it writes \<open>cachedBooks\<close> and
  \<open>lastCacheTime\<close> only after the awaited promise has settled. While a call awaits,
  other calls on the same instance can run (routes/books.ts creates one instance for all
  requests). The two parts of a call are therefore also given on their own:
  \<open>getAllBooks_check\<close> is the part before the \<open>await\<close>, with the cached books when
  the call returns them at once; \<open>getAllBooks_resume\<close> is the part after it, on the
  fields as they are when the call resumes and with the clock reading taken before the
  test.
\<close>

definition getAllBooks_check :: "int \<Rightarrow> BookService \<Rightarrow> Book list option" where
  "getAllBooks_check now' service = (if cache_valid now' service then cachedBooks service else None)"

definition getAllBooks_resume ::
    "int \<Rightarrow> ('e + BookDataIntegrationResult) \<Rightarrow> BookService \<Rightarrow> 'e call_outcome" where
  "getAllBooks_resume now' run service =
     (case run of
        Inl thrown \<Rightarrow> \<lparr> returned = Inl (Thrown thrown), after = service, pipeline_runs = 1 \<rparr>
      | Inr integrationResult \<Rightarrow>
          (case errors integrationResult of
             Some (e # es) \<Rightarrow>
               \<lparr> returned = Inl (IntegrationFailed (e # es)), after = service, pipeline_runs = 1 \<rparr>
           | _ \<Rightarrow>
               \<lparr> returned = Inr (books integrationResult),
                 after = \<lparr> cachedBooks = Some (books integrationResult), lastCacheTime = now' \<rparr>,
                 pipeline_runs = 1 \<rparr>))"

text \<open>
  Two calls that overlap: the second call starts while the first one awaits the pipeline.
  Both tests are made on the fields as they were before the first call; then the first
  call resumes, then the second, on the fields the first one left. A call whose test
  succeeds returns at once, on the fields as they were. The tests write nothing, so the
  schedule in which the second call resumes first is the same function with the two calls
  exchanged.
\<close>

definition overlapping_calls ::
    "int \<Rightarrow> ('e + BookDataIntegrationResult) \<Rightarrow> int \<Rightarrow> ('e + BookDataIntegrationResult) \<Rightarrow> BookService
      \<Rightarrow> 'e call_outcome \<times> 'e call_outcome" where
  "overlapping_calls t1 run1 t2 run2 service =
     (let check1 = getAllBooks_check t1 service;
          check2 = getAllBooks_check t2 service;
          first = (case check1 of
                     Some bs \<Rightarrow> \<lparr> returned = Inr bs, after = service, pipeline_runs = 0 \<rparr>
                   | None \<Rightarrow> getAllBooks_resume t1 run1 service);
          second = (case check2 of
                      Some bs \<Rightarrow> \<lparr> returned = Inr bs, after = service, pipeline_runs = 0 \<rparr>
                    | None \<Rightarrow> getAllBooks_resume t2 run2 (after first))
      in (first, second))"

section \<open>Notions used in the statements\<close>

text \<open>The state \<open>mergeBookData\<close> starts its loop in.\<close>

definition merge_init :: merge_state where
  "merge_init = \<lparr> ms_books = [], seenASINs = {}, ms_duplicateCount = 0, ms_invalidCount = 0 \<rparr>"

text \<open>
  A metadata item is accepted when \<open>createSafeBook\<close> returns a book for it, and
  the item at index \<open>i\<close> is the first accepted one of its identifier when no accepted
  item before it has the same ASIN.
\<close>

definition accepted :: "(jsstring \<rightharpoonup> jsstring list) \<Rightarrow> BookMetadata \<Rightarrow> bool" where
  "accepted m x \<longleftrightarrow> (case createSafeBook (book_input m x) of Inr b \<Rightarrow> True | Inl e \<Rightarrow> False)"

definition first_accepted :: "(jsstring \<rightharpoonup> jsstring list) \<Rightarrow> BookMetadata list \<Rightarrow> nat \<Rightarrow> bool" where
  "first_accepted m L i \<longleftrightarrow>
     accepted m (L ! i) \<and> (\<forall>y \<in> set (take i L). accepted m y \<longrightarrow> md_asin y \<noteq> md_asin (L ! i))"

text \<open>The invariant of an integrated book record.\<close>

definition book_invariant :: "Book \<Rightarrow> bool" where
  "book_invariant b \<longleftrightarrow>
     ASIN_PATTERN (asin b) \<and> trim (title b) \<noteq> [] \<and> trim (author b) \<noteq> [] \<and>
     [] \<notin> set (collections b) \<and> distinct (collections b)"

text \<open>
  A path names a regular file; a path names a file that exists, can be read, is regular
  and is not empty; both overrides are set and resolve to regular files, which is the
  condition of the first block of \<open>detectKindlePaths\<close>; a configuration is within
  its validity window of 24 hours.
\<close>

definition regular_file :: "host \<Rightarrow> jsstring \<Rightarrow> bool" where
  "regular_file h p \<longleftrightarrow> (case files h p of None \<Rightarrow> False | Some stats \<Rightarrow> isFile stats)"

definition usable_file :: "host \<Rightarrow> jsstring \<Rightarrow> bool" where
  "usable_file h p \<longleftrightarrow>
     (case files h p of None \<Rightarrow> False
      | Some stats \<Rightarrow> isFile stats \<and> readable stats \<and> st_size stats \<noteq> 0)"

definition overrides_win :: "host \<Rightarrow> bool" where
  "overrides_win h \<longleftrightarrow>
     truthy (KINDLE_XML_PATH h) \<and> truthy (KINDLE_DB_PATH h) \<and>
     regular_file h (resolve h (the (KINDLE_XML_PATH h))) \<and>
     regular_file h (resolve h (the (KINDLE_DB_PATH h)))"

definition fresh :: "host \<Rightarrow> PathConfiguration \<Rightarrow> bool" where
  "fresh h config \<longleftrightarrow> now h - lastValidated config \<le> 24 * (1000 * 60 * 60)"


section \<open>Example data\<close>

definition meta :: "string \<Rightarrow> string \<Rightarrow> string \<Rightarrow> BookMetadata" where
  "meta a t au =
     \<lparr> md_asin = js a, md_title = js t, md_titlePronunciation = None, md_author = js au,
       md_authorPronunciation = None, md_publisher = None, md_publicationDate = None,
       md_purchaseDate = None, md_contentType = None, md_mimeType = None, md_originType = None \<rparr>"

definition collection :: "string \<Rightarrow> string \<Rightarrow> int \<Rightarrow> Collection" where
  "collection i n k = \<lparr> c_id = js i, c_name = js n, bookCount = k, lastUpdated = None \<rparr>"

definition association :: "string \<Rightarrow> string \<Rightarrow> Association" where
  "association a c = \<lparr> bookAsin = js a, collectionId = js c \<rparr>"

text \<open>A \<open>meta_data\<close> element with a plain title and nothing else.\<close>

definition element :: "string option \<Rightarrow> string \<Rightarrow> MetadataElement" where
  "element a t =
     \<lparr> ASIN = map_option js a, el_title = Some (Str (js t)), authors = None, publishers = None,
       publication_date = None, purchase_date = None, cde_contenttype = None,
       content_type = None, origins = None \<rparr>"

definition a_directory :: file_stat where
  "a_directory = \<lparr> isFile = False, isDirectory = True, st_size = 4096, readable = True \<rparr>"

definition a_file :: "nat \<Rightarrow> file_stat" where
  "a_file n = \<lparr> isFile = True, isDirectory = False, st_size = n, readable = True \<rparr>"

text \<open>
  A POSIX host with two complete Kindle cache directories, \<open>/old/kindle\<close> and
  \<open>/srv/kindle\<close>, and the directory override pointing at the second.
\<close>

definition posix_host :: host where
  "posix_host =
     \<lparr> KINDLE_XML_PATH = None, KINDLE_DB_PATH = None,
       KINDLE_CACHE_PATH = Some (js ''/srv/kindle''),
       USERPROFILE = None, LOCALAPPDATA = None,
       files =
         [js ''/old/kindle'' \<mapsto> a_directory,
          js ''/old/kindle/KindleSyncMetadataCache.xml'' \<mapsto> a_file 2048,
          js ''/old/kindle/db/synced_collections.db'' \<mapsto> a_file 8192,
          js ''/srv/kindle'' \<mapsto> a_directory,
          js ''/srv/kindle/KindleSyncMetadataCache.xml'' \<mapsto> a_file 1024,
          js ''/srv/kindle/db/synced_collections.db'' \<mapsto> a_file 4096],
       resolve = posix_resolve (js ''/home/user''),
       path_join = posix_join,
       now = 1000000000,
       config_writable = True \<rparr>"

text \<open>A configuration persisted one hour before, for \<open>/old/kindle\<close>.\<close>

definition old_config :: PathConfiguration where
  "old_config = \<lparr> kindleCachePath = js ''/old/kindle'', lastValidated = 1000000000 - 3600000,
                  cfg_source = Auto \<rparr>"

text \<open>The example host with both per-file overrides set, to the files of \<open>/old/kindle\<close>.\<close>

definition override_host :: host where
  "override_host =
     posix_host\<lparr> KINDLE_XML_PATH := Some (js ''/old/kindle/KindleSyncMetadataCache.xml''),
                  KINDLE_DB_PATH := Some (js ''/old/kindle/db/synced_collections.db'') \<rparr>"

text \<open>
  The example host with both per-file overrides set to regular files that are empty.
\<close>

definition empty_override_host :: host where
  "empty_override_host =
     posix_host\<lparr> KINDLE_XML_PATH := Some (js ''/tmp/empty.xml''),
                  KINDLE_DB_PATH := Some (js ''/tmp/empty.db''),
                  files := (files posix_host)(js ''/tmp/empty.xml'' \<mapsto> a_file 0,
                                               js ''/tmp/empty.db'' \<mapsto> a_file 0) \<rparr>"


definition run_with_errors :: "unit + BookDataIntegrationResult" where
  "run_with_errors =
     Inr (integrateAllBookData (\<lambda>s. True) [element (Some ''B000000001'') ''Kokoro'']
            [collection '' '' ''Unnamed'' 0] [])"

section \<open>Properties of ASIN validation\<close>

lemma match_class_times_iff:
  "match_class_times rs n s = Some r \<longleftrightarrow>
     n \<le> length s \<and> (\<forall>c \<in> set (take n s). in_ranges rs c) \<and> r = drop n s"
proof (induction rs n s rule: match_class_times.induct)
  case (1 rs s)
  show ?case by auto
next
  case (2 rs n)
  show ?case by simp
next
  case (3 rs n c s)
  then show ?case by auto
qed

lemma ASIN_PATTERN_iff:
  "ASIN_PATTERN s \<longleftrightarrow> length s = 10 \<and> (\<forall>c \<in> set s. is_upper_or_digit c)"
proof -
  have cls: "in_ranges [(of_char CHR ''A'', of_char CHR ''Z''), (of_char CHR ''0'', of_char CHR ''9'')] c
      = is_upper_or_digit c" for c
    by (simp add: in_ranges_def is_upper_or_digit_def)
  show ?thesis
    unfolding ASIN_PATTERN_def match_class_times_iff cls
    by (cases "length s = 10") auto
qed

text \<open>
  C4. For every input string, \<open>validateAsin\<close> succeeds if and only if the string has
  exactly 10 characters, each from \<open>[A-Z0-9]\<close>; on every other string (another length,
  a lowercase letter, a symbol) it throws.
\<close>

theorem validateAsin_iff:
  "(validateAsin s = Inr True \<longleftrightarrow> length s = 10 \<and> (\<forall>c \<in> set s. is_upper_or_digit c)) \<and>
   (\<not> (length s = 10 \<and> (\<forall>c \<in> set s. is_upper_or_digit c)) \<longrightarrow> (\<exists>e. validateAsin s = Inl e))"
  by (auto simp: validateAsin_def ASIN_PATTERN_iff)

theorem validateAsin_iff_witness:
  "validateAsin (js ''B00TEST123'') = Inr True \<and>
   (\<exists>e. validateAsin (js ''b00test123'') = Inl e) \<and>
   (\<exists>e. validateAsin (js ''B00TEST12'') = Inl e) \<and>
   (\<exists>e. validateAsin (js ''B00-EST123'') = Inl e)"
  using validateAsin_iff [of "js ''B00TEST123''"] validateAsin_iff [of "js ''b00test123''"]
    validateAsin_iff [of "js ''B00TEST12''"] validateAsin_iff [of "js ''B00-EST123''"]
  by (simp add: js_def is_upper_or_digit_def)

section \<open>Book counts\<close>

lemma count_associations_eq:
  "count_associations m as k =
     (if \<exists>a \<in> set as. collectionId a = k
      then Some ((case m k of None \<Rightarrow> 0 | Some n \<Rightarrow> n) + int (length (filter (\<lambda>a. collectionId a = k) as)))
      else m k)"
proof (induction as arbitrary: m)
  case Nil
  show ?case by simp
next
  case (Cons a as)
  show ?case
    by (cases "collectionId a = k") (auto simp: Cons.IH Let_def split: option.splits)
qed

lemma count_associations_empty:
  "(case count_associations Map.empty as k of None \<Rightarrow> 0 | Some n \<Rightarrow> n)
     = int (length (filter (\<lambda>a. collectionId a = k) as))"
  by (auto simp: count_associations_eq filter_empty_conv)

text \<open>
  C3. After \<open>updateBookCounts\<close>, every collection record carries as its book count the
  number of associations whose collection identifier is its own (zero when there are
  none) and is otherwise unchanged; an association whose collection identifier belongs
  to no collection changes no count.
\<close>

theorem updateBookCounts_counts:
  "updateBookCounts cs as =
     map (\<lambda>c. c\<lparr>bookCount := int (length (filter (\<lambda>a. collectionId a = c_id c) as))\<rparr>) cs \<and>
   (collectionId a \<notin> c_id ` set cs \<longrightarrow>
      updateBookCounts cs (as1 @ a # as2) = updateBookCounts cs (as1 @ as2))"
proof
  show eq: "updateBookCounts cs as =
     map (\<lambda>c. c\<lparr>bookCount := int (length (filter (\<lambda>a. collectionId a = c_id c) as))\<rparr>) cs" for as
    by (simp add: updateBookCounts_def count_associations_empty)
  show "collectionId a \<notin> c_id ` set cs \<longrightarrow>
      updateBookCounts cs (as1 @ a # as2) = updateBookCounts cs (as1 @ as2)"
    unfolding eq by auto
qed

theorem updateBookCounts_counts_witness:
  "updateBookCounts [collection ''col-a'' ''Fiction'' 0, collection ''col-b'' ''Empty'' 7]
     [association ''B000000001'' ''col-a'', association ''B000000002'' ''col-x'',
      association ''B000000002'' ''col-a'']
   = [collection ''col-a'' ''Fiction'' 2, collection ''col-b'' ''Empty'' 0] \<and>
   updateBookCounts [collection ''col-a'' ''Fiction'' 0, collection ''col-b'' ''Empty'' 7]
     [association ''B000000001'' ''col-a'', association ''B000000002'' ''col-x'',
      association ''B000000002'' ''col-a'']
   = updateBookCounts [collection ''col-a'' ''Fiction'' 0, collection ''col-b'' ''Empty'' 7]
     [association ''B000000001'' ''col-a'', association ''B000000002'' ''col-a'']"
proof -
  note inst = updateBookCounts_counts
    [of "[collection ''col-a'' ''Fiction'' 0, collection ''col-b'' ''Empty'' 7]"
        "[association ''B000000001'' ''col-a'', association ''B000000002'' ''col-x'',
          association ''B000000002'' ''col-a'']"
        "association ''B000000002'' ''col-x''"
        "[association ''B000000001'' ''col-a'']" "[association ''B000000002'' ''col-a'']"]
  have counts: "updateBookCounts [collection ''col-a'' ''Fiction'' 0, collection ''col-b'' ''Empty'' 7]
     [association ''B000000001'' ''col-a'', association ''B000000002'' ''col-x'',
      association ''B000000002'' ''col-a'']
   = [collection ''col-a'' ''Fiction'' 2, collection ''col-b'' ''Empty'' 0]"
    using inst [THEN conjunct1] by (simp add: collection_def association_def js_def)
  have dropped: "updateBookCounts [collection ''col-a'' ''Fiction'' 0, collection ''col-b'' ''Empty'' 7]
     [association ''B000000001'' ''col-a'', association ''B000000002'' ''col-x'',
      association ''B000000002'' ''col-a'']
   = updateBookCounts [collection ''col-a'' ''Fiction'' 0, collection ''col-b'' ''Empty'' 7]
     [association ''B000000001'' ''col-a'', association ''B000000002'' ''col-a'']"
    using inst [THEN conjunct2] by (simp add: collection_def association_def js_def)
  show ?thesis
    using counts dropped by (rule conjI)
qed

section \<open>Trimming\<close>

lemma trim_Nil: "trim [] = []"
  by (simp add: trim_def)

lemma trim_eq_Nil_iff: "trim s = [] \<longleftrightarrow> (\<forall>c \<in> set s. is_js_space c)"
proof
  assume "trim s = []"
  then have all: "\<forall>c \<in> set (dropWhile is_js_space s). is_js_space c"
    by (simp add: trim_def dropWhile_eq_Nil_conv)
  have "dropWhile is_js_space s = []"
  proof (rule ccontr)
    assume ne: "dropWhile is_js_space s \<noteq> []"
    then have "\<not> is_js_space (hd (dropWhile is_js_space s))"
      by (rule hd_dropWhile)
    moreover have "hd (dropWhile is_js_space s) \<in> set (dropWhile is_js_space s)"
      using ne by (rule hd_in_set)
    ultimately show False using all by blast
  qed
  then show "\<forall>c \<in> set s. is_js_space c"
    by (simp add: dropWhile_eq_Nil_conv)
next
  assume "\<forall>c \<in> set s. is_js_space c"
  then have "dropWhile is_js_space s = []"
    by (simp add: dropWhile_eq_Nil_conv)
  then show "trim s = []"
    by (simp add: trim_def del: dropWhile_eq_Nil_conv)
qed

lemma dropWhile_rev_dropWhile:
  "dropWhile P (rev (dropWhile P (rev (dropWhile P s)))) = rev (dropWhile P (rev (dropWhile P s)))"
proof (cases "dropWhile P s = []")
  case True
  then show ?thesis by (simp del: dropWhile_eq_Nil_conv)
next
  case False
  define a where "a = dropWhile P s"
  have a: "a \<noteq> []" "\<not> P (hd a)"
    using False hd_dropWhile [of P s] by (simp_all add: a_def)
  then obtain x xs where axs: "a = x # xs" "\<not> P x"
    by (cases a) auto
  have "dropWhile P (rev a) = dropWhile P (rev xs) @ [x]"
    using axs by (simp add: dropWhile_append3)
  then show ?thesis
    using axs by (simp add: a_def [symmetric])
qed

lemma trim_idem: "trim (trim s) = trim s"
  by (simp add: trim_def dropWhile_rev_dropWhile)

section \<open>The merge loop\<close>

lemma createSafeBook_Inr_iff:
  "(\<exists>b. createSafeBook d = Inr b) \<longleftrightarrow>
     truthy (p_asin d) \<and> truthy (p_title d) \<and> truthy (p_author d) \<and> ASIN_PATTERN (the (p_asin d))"
  by (auto simp: createSafeBook_def validateAsin_def truthy_def split: option.splits)

lemma accepted_iff:
  "accepted m x \<longleftrightarrow> md_title x \<noteq> [] \<and> md_author x \<noteq> [] \<and> ASIN_PATTERN (md_asin x)"
proof -
  have "accepted m x \<longleftrightarrow> (\<exists>b. createSafeBook (book_input m x) = Inr b)"
    by (auto simp: accepted_def split: sum.splits)
  also have "\<dots> \<longleftrightarrow> md_title x \<noteq> [] \<and> md_author x \<noteq> [] \<and> ASIN_PATTERN (md_asin x)"
    unfolding createSafeBook_Inr_iff
    by (auto simp: book_input_def truthy_def ASIN_PATTERN_iff)
  finally show ?thesis .
qed

lemma createSafeBook_asin: "createSafeBook d = Inr b \<Longrightarrow> p_asin d = Some (asin b)"
  by (auto simp: createSafeBook_def truthy_def split: if_splits sum.splits option.splits)

lemma merge_loop_append:
  "merge_loop m st (xs @ ys) = merge_loop m (merge_loop m st xs) ys"
  by (induction xs arbitrary: st) simp_all

lemma merge_step_cases:
  "merge_step m st x =
     (if md_asin x \<in> seenASINs st then st\<lparr>ms_duplicateCount := ms_duplicateCount st + 1\<rparr>
      else if accepted m x
      then st\<lparr>ms_books := ms_books st @ [projr (createSafeBook (book_input m x))],
              seenASINs := insert (md_asin x) (seenASINs st)\<rparr>
      else st\<lparr>ms_invalidCount := ms_invalidCount st + 1\<rparr>)"
  by (auto simp: merge_step_def accepted_def split: sum.splits)

lemma merge_loop_seen:
  "seenASINs (merge_loop m st xs) = seenASINs st \<union> md_asin ` {x \<in> set xs. accepted m x}"
proof (induction xs arbitrary: st)
  case Nil
  show ?case by simp
next
  case (Cons x xs)
  show ?case
    by (auto simp: Cons.IH merge_step_cases)
qed

lemma merge_loop_settled:
  "\<forall>x \<in> set xs. md_asin x \<in> seenASINs st \<or> \<not> accepted m x \<Longrightarrow>
   merge_loop m st xs =
     st\<lparr>ms_duplicateCount := ms_duplicateCount st + length (filter (\<lambda>x. md_asin x \<in> seenASINs st) xs),
        ms_invalidCount := ms_invalidCount st + length (filter (\<lambda>x. md_asin x \<notin> seenASINs st) xs)\<rparr>"
proof (induction xs arbitrary: st)
  case Nil
  show ?case by simp
next
  case (Cons x xs)
  let ?st = "merge_step m st x"
  have seen: "seenASINs ?st = seenASINs st"
    using Cons.prems by (auto simp: merge_step_cases)
  have "\<forall>y \<in> set xs. md_asin y \<in> seenASINs ?st \<or> \<not> accepted m y"
    using Cons.prems seen by simp
  from Cons.IH [OF this] show ?case
    using Cons.prems by (auto simp: seen merge_step_cases)
qed

lemma merge_loop_snoc: "merge_loop m st (xs @ [x]) = merge_step m (merge_loop m st xs) x"
  by (simp add: merge_loop_append)

lemma merge_loop_seen_books:
  "seenASINs st = asin ` set (ms_books st) \<Longrightarrow>
   seenASINs (merge_loop m st xs) = asin ` set (ms_books (merge_loop m st xs))"
proof (induction xs arbitrary: st)
  case Nil
  then show ?case by simp
next
  case (Cons x xs)
  have "seenASINs (merge_step m st x) = asin ` set (ms_books (merge_step m st x))"
  proof (cases "createSafeBook (book_input m x)")
    case (Inl e)
    then show ?thesis using Cons.prems by (simp add: merge_step_def)
  next
    case (Inr b)
    then have "asin b = md_asin x"
      using createSafeBook_asin [OF Inr] by (simp add: book_input_def)
    then show ?thesis using Cons.prems Inr by (auto simp: merge_step_def)
  qed
  from Cons.IH [OF this] show ?case by simp
qed

lemma merge_loop_no_duplicates:
  "distinct (map md_asin xs) \<Longrightarrow> md_asin ` set xs \<inter> seenASINs st = {} \<Longrightarrow>
   ms_duplicateCount (merge_loop m st xs) = ms_duplicateCount st"
proof (induction xs arbitrary: st)
  case Nil
  show ?case by simp
next
  case (Cons x xs)
  have fresh: "md_asin x \<notin> seenASINs st"
    using Cons.prems(2) by auto
  have "md_asin ` set xs \<inter> seenASINs (merge_step m st x) = {}"
    using Cons.prems fresh by (auto simp: merge_step_cases)
  moreover have "distinct (map md_asin xs)"
    using Cons.prems(1) by simp
  ultimately have "ms_duplicateCount (merge_loop m (merge_step m st x) xs)
      = ms_duplicateCount (merge_step m st x)"
    by (rule Cons.IH [rotated])
  then show ?case
    using fresh by (simp add: merge_step_cases)
qed

lemma merge_loop_first_wins:
  "list_all2 (\<lambda>b i. createSafeBook (book_input m (L ! i)) = Inr b)
     (ms_books (merge_loop m merge_init L))
     (filter (first_accepted m L) [0..<length L])"
proof (induction L rule: rev_induct)
  case Nil
  show ?case by (simp add: merge_init_def)
next
  case (snoc x L)
  let ?st = "merge_loop m merge_init L"
  have seen: "seenASINs ?st = md_asin ` {y \<in> set L. accepted m y}"
    by (simp add: merge_loop_seen merge_init_def)
  have old: "first_accepted m (L @ [x]) i = first_accepted m L i" if "i < length L" for i
    using that by (simp add: first_accepted_def nth_append)
  have new: "first_accepted m (L @ [x]) (length L) \<longleftrightarrow> accepted m x \<and> md_asin x \<notin> seenASINs ?st"
  proof -
    have "md_asin x \<notin> md_asin ` {y \<in> set L. accepted m y} \<longleftrightarrow>
        (\<forall>y \<in> set L. accepted m y \<longrightarrow> md_asin y \<noteq> md_asin x)"
      by (auto simp: image_iff intro: sym)
    then show ?thesis
      by (simp add: first_accepted_def seen)
  qed
  have flt: "filter (first_accepted m (L @ [x])) [0..<length L] = filter (first_accepted m L) [0..<length L]"
    by (rule filter_cong) (simp_all add: old)
  have rel: "list_all2 (\<lambda>b i. createSafeBook (book_input m ((L @ [x]) ! i)) = Inr b)
      (ms_books ?st) (filter (first_accepted m L) [0..<length L])"
    by (rule list.rel_mono_strong [OF snoc.IH]) (auto simp: nth_append)
  show ?case
  proof (cases "accepted m x \<and> md_asin x \<notin> seenASINs ?st")
    case True
    then obtain b where b: "createSafeBook (book_input m x) = Inr b"
      by (auto simp: accepted_def split: sum.splits)
    have "ms_books (merge_step m ?st x) = ms_books ?st @ [b]"
      using True b by (simp add: merge_step_def)
    moreover have "first_accepted m (L @ [x]) (length L)"
      using True new by blast
    ultimately show ?thesis
      using rel b by (simp add: merge_loop_snoc flt list_all2_appendI)
  next
    case False
    then have "ms_books (merge_step m ?st x) = ms_books ?st"
      by (auto simp: merge_step_cases)
    moreover have "\<not> first_accepted m (L @ [x]) (length L)"
      using False new by blast
    ultimately show ?thesis
      using rel by (simp add: merge_loop_snoc flt)
  qed
qed

lemmas eval_defs = mergeBookData_def buildASINCollectionMapping_def merge_step_def createSafeBook_def
  book_input_def truthy_def validateAsin_def ASIN_PATTERN_iff is_upper_or_digit_def trim_def
  is_js_space_def js_def meta_def collection_def association_def Let_def

lemma mergeBookData_fields:
  "mr_books (mergeBookData L cs as) = ms_books (merge_loop (buildASINCollectionMapping cs as) merge_init L)"
  "duplicateCount (mergeBookData L cs as) = ms_duplicateCount (merge_loop (buildASINCollectionMapping cs as) merge_init L)"
  "invalidCount (mergeBookData L cs as) = ms_invalidCount (merge_loop (buildASINCollectionMapping cs as) merge_init L)"
  by (simp_all add: mergeBookData_def merge_init_def Let_def)

text \<open>
  C2 (as amended). Merging \<open>L @ L\<close> yields the same book list as merging \<open>L\<close>. Its
  duplicate counter is the duplicate counter of the single run plus the number of items
  of \<open>L\<close> whose identifier belongs to a book of the result; it is the length of
  \<open>L\<close> when the identifiers of \<open>L\<close> are pairwise distinct and every item is
  accepted. The books are, in input order, those created from the first accepted item
  of each identifier.
\<close>

theorem mergeBookData_twice:
  "mr_books (mergeBookData (L @ L) cs as) = mr_books (mergeBookData L cs as) \<and>
   duplicateCount (mergeBookData (L @ L) cs as) =
     duplicateCount (mergeBookData L cs as) +
     length (filter (\<lambda>x. md_asin x \<in> asin ` set (mr_books (mergeBookData L cs as))) L) \<and>
   (distinct (map md_asin L) \<and> (\<forall>x \<in> set L. accepted (buildASINCollectionMapping cs as) x) \<longrightarrow>
      duplicateCount (mergeBookData (L @ L) cs as) = length L) \<and>
   list_all2 (\<lambda>b i. createSafeBook (book_input (buildASINCollectionMapping cs as) (L ! i)) = Inr b)
     (mr_books (mergeBookData L cs as))
     (filter (first_accepted (buildASINCollectionMapping cs as) L) [0..<length L])"
proof -
  let ?m = "buildASINCollectionMapping cs as"
  let ?st = "merge_loop ?m merge_init L"
  have seen: "seenASINs ?st = md_asin ` {y \<in> set L. accepted ?m y}"
    by (simp add: merge_loop_seen merge_init_def)
  have seen_books: "seenASINs ?st = asin ` set (ms_books ?st)"
    by (rule merge_loop_seen_books) (simp add: merge_init_def)
  have "\<forall>x \<in> set L. md_asin x \<in> seenASINs ?st \<or> \<not> accepted ?m x"
    by (auto simp: seen)
  from merge_loop_settled [OF this]
  have twice: "merge_loop ?m merge_init (L @ L) =
      ?st\<lparr>ms_duplicateCount := ms_duplicateCount ?st + length (filter (\<lambda>x. md_asin x \<in> seenASINs ?st) L),
          ms_invalidCount := ms_invalidCount ?st + length (filter (\<lambda>x. md_asin x \<notin> seenASINs ?st) L)\<rparr>"
    by (simp add: merge_loop_append)
  have books: "mr_books (mergeBookData (L @ L) cs as) = mr_books (mergeBookData L cs as)"
    by (simp add: mergeBookData_fields twice)
  have dup: "duplicateCount (mergeBookData (L @ L) cs as) =
     duplicateCount (mergeBookData L cs as) +
     length (filter (\<lambda>x. md_asin x \<in> asin ` set (mr_books (mergeBookData L cs as))) L)"
    by (simp add: mergeBookData_fields twice seen_books)
  have special: "duplicateCount (mergeBookData (L @ L) cs as) = length L"
    if d: "distinct (map md_asin L)" and a: "\<forall>x \<in> set L. accepted ?m x"
  proof -
    have "ms_duplicateCount ?st = ms_duplicateCount merge_init"
      by (rule merge_loop_no_duplicates [OF d]) (simp add: merge_init_def)
    then have "duplicateCount (mergeBookData L cs as) = 0"
      by (simp add: mergeBookData_fields) (simp add: merge_init_def)
    moreover have "filter (\<lambda>x. md_asin x \<in> seenASINs ?st) L = L"
      using a by (auto simp: seen filter_id_conv)
    then have "filter (\<lambda>x. md_asin x \<in> asin ` set (mr_books (mergeBookData L cs as))) L = L"
      by (simp add: mergeBookData_fields seen_books)
    ultimately show ?thesis
      by (simp add: dup)
  qed
  have first: "list_all2 (\<lambda>b i. createSafeBook (book_input ?m (L ! i)) = Inr b)
     (mr_books (mergeBookData L cs as)) (filter (first_accepted ?m L) [0..<length L])"
    by (simp add: mergeBookData_fields merge_loop_first_wins)
  show ?thesis
    using books dup special first by blast
qed

text \<open>
  A duplicate counter equal to the length of the list does not hold for a list that has
  the same valid item twice: the doubled run counts three duplicates, not two.
\<close>

theorem mergeBookData_twice_counterexample:
  "duplicateCount
     (mergeBookData
        ([meta ''B000000001'' ''T'' ''A'', meta ''B000000001'' ''T'' ''A''] @
         [meta ''B000000001'' ''T'' ''A'', meta ''B000000001'' ''T'' ''A'']) [] []) = 3 \<and>
   length [meta ''B000000001'' ''T'' ''A'', meta ''B000000001'' ''T'' ''A''] = 2"
  by (simp add: eval_defs)

theorem mergeBookData_twice_witness:
  "duplicateCount
     (mergeBookData
        ([meta ''B000000001'' ''T'' ''A'', meta ''B000000002'' ''U'' ''B''] @
         [meta ''B000000001'' ''T'' ''A'', meta ''B000000002'' ''U'' ''B'']) [] []) = 2 \<and>
   mr_books
     (mergeBookData
        ([meta ''B000000001'' ''T'' ''A'', meta ''B000000002'' ''U'' ''B''] @
         [meta ''B000000001'' ''T'' ''A'', meta ''B000000002'' ''U'' ''B'']) [] []) =
   mr_books (mergeBookData [meta ''B000000001'' ''T'' ''A'', meta ''B000000002'' ''U'' ''B''] [] [])"
proof -
  note inst = mergeBookData_twice
    [of "[meta ''B000000001'' ''T'' ''A'', meta ''B000000002'' ''U'' ''B'']" "[]" "[]"]
  have hyp: "distinct (map md_asin [meta ''B000000001'' ''T'' ''A'', meta ''B000000002'' ''U'' ''B'']) \<and>
      (\<forall>x \<in> set [meta ''B000000001'' ''T'' ''A'', meta ''B000000002'' ''U'' ''B''].
         accepted (buildASINCollectionMapping [] []) x)"
    by (simp add: accepted_def eval_defs)
  have "duplicateCount
     (mergeBookData
        ([meta ''B000000001'' ''T'' ''A'', meta ''B000000002'' ''U'' ''B''] @
         [meta ''B000000001'' ''T'' ''A'', meta ''B000000002'' ''U'' ''B'']) [] []) =
     length [meta ''B000000001'' ''T'' ''A'', meta ''B000000002'' ''U'' ''B'']"
    using inst hyp by blast
  then show ?thesis
    using inst by simp
qed

section \<open>Metadata extraction\<close>

lemma map_filter_append: "List.map_filter f (xs @ ys) = List.map_filter f xs @ List.map_filter f ys"
  by (simp add: List.map_filter_def)

lemma processMetadataChunk_eq:
  "processMetadataChunk parses chunk acc =
     acc @ List.map_filter (extractSingleBookMetadata parses) chunk"
proof (induction chunk arbitrary: acc)
  case Nil
  show ?case by (simp add: List.map_filter_simps)
next
  case (Cons e chunk)
  show ?case
    by (cases "extractSingleBookMetadata parses e") (simp_all add: Cons.IH List.map_filter_simps)
qed

lemma processLargeMetadataList_from_eq:
  "processLargeMetadataList_from parses ms i acc =
     acc @ List.map_filter (extractSingleBookMetadata parses) (drop i ms)"
proof (induction parses ms i acc rule: processLargeMetadataList_from.induct)
  case (1 parses ms i acc)
  show ?case
  proof (cases "i < length ms")
    case True
    have "take CHUNK_SIZE (drop i ms) @ drop (i + CHUNK_SIZE) ms = drop i ms"
      using append_take_drop_id [of CHUNK_SIZE "drop i ms"] by (simp add: add.commute)
    then have split: "List.map_filter (extractSingleBookMetadata parses) (take CHUNK_SIZE (drop i ms)) @
        List.map_filter (extractSingleBookMetadata parses) (drop (i + CHUNK_SIZE) ms) =
        List.map_filter (extractSingleBookMetadata parses) (drop i ms)"
      by (simp only: map_filter_append [symmetric])
    have "processLargeMetadataList_from parses ms i acc =
        processLargeMetadataList_from parses ms (i + CHUNK_SIZE)
          (processMetadataChunk parses (take CHUNK_SIZE (drop i ms)) acc)"
      using True by (subst processLargeMetadataList_from.simps) simp
    also have "\<dots> = processMetadataChunk parses (take CHUNK_SIZE (drop i ms)) acc @
        List.map_filter (extractSingleBookMetadata parses) (drop (i + CHUNK_SIZE) ms)"
      by (rule "1.IH" [OF True])
    also have "\<dots> = (acc @ List.map_filter (extractSingleBookMetadata parses) (take CHUNK_SIZE (drop i ms))) @
        List.map_filter (extractSingleBookMetadata parses) (drop (i + CHUNK_SIZE) ms)"
      by (simp only: processMetadataChunk_eq)
    also have "\<dots> = acc @ List.map_filter (extractSingleBookMetadata parses) (drop i ms)"
      by (simp only: append_assoc split)
    finally show ?thesis .
  next
    case False
    then show ?thesis
      by (subst processLargeMetadataList_from.simps) (simp add: List.map_filter_simps)
  qed
qed

lemma extractBookMetadata_eq:
  "extractBookMetadata parses ms = List.map_filter (extractSingleBookMetadata parses) ms"
  by (simp add: extractBookMetadata_def processLargeMetadataList_from_eq)

lemma collect_authors_names:
  "n \<in> set (fst (collect_authors auths)) \<Longrightarrow> trim n \<noteq> []"
proof (induction auths)
  case Nil
  then show ?case by simp
next
  case (Cons a auths)
  then show ?case
    by (cases a) (auto simp: truthy_def trim_idem split: prod.splits if_splits)
qed

lemma set_join_hd: "names \<noteq> [] \<Longrightarrow> set (hd names) \<subseteq> set (join sep names)"
  by (induction sep names rule: join.induct) auto

lemma join_nonblank:
  assumes "names \<noteq> []" and "\<forall>n \<in> set names. trim n \<noteq> []"
  shows "trim (join sep names) \<noteq> []"
proof -
  have "trim (hd names) \<noteq> []"
    using assms by simp
  then obtain c where "c \<in> set (hd names)" "\<not> is_js_space c"
    by (auto simp: trim_eq_Nil_iff)
  then show ?thesis
    using set_join_hd [OF assms(1), of sep] by (auto simp: trim_eq_Nil_iff)
qed

lemma unknown_author_nonblank: "trim unknown_author \<noteq> []"
  by (simp add: trim_eq_Nil_iff unknown_author_def is_js_space_def)

lemma extractAuthor_nonblank:
  "extractAuthor metadata = (Some a, p) \<Longrightarrow> a \<noteq> [] \<Longrightarrow> trim a \<noteq> []"
proof -
  assume ex: "extractAuthor metadata = (Some a, p)" and ne: "a \<noteq> []"
  show ?thesis
  proof (cases "authors metadata")
    case None
    then show ?thesis using ex by (simp add: extractAuthor_def)
  next
    case (Some f)
    show ?thesis
    proof (cases f)
      case (AuthorOne node)
      then show ?thesis
        using ex ne Some
        by (cases node) (auto simp: extractAuthor_def trim_idem split: if_splits)
    next
      case (AuthorMany auths)
      obtain names prons where ca: "collect_authors auths = (names, prons)"
        by (cases "collect_authors auths")
      have a: "names \<noteq> []" "a = join (js '', '') names"
        using ex Some AuthorMany ca by (auto simp: extractAuthor_def split: if_splits)
      have "\<forall>n \<in> set names. trim n \<noteq> []"
        using collect_authors_names [of _ auths] ca by simp
      then show ?thesis
        using a join_nonblank by blast
    qed
  qed
qed

lemma extractSingleBookMetadata_valid:
  assumes "extractSingleBookMetadata parses e = Some x"
  shows "ASIN_PATTERN (md_asin x) \<and> md_title x \<noteq> [] \<and> trim (md_title x) = md_title x \<and>
         trim (md_author x) \<noteq> []"
proof -
  from assms have tr: "extractSingleBookMetadata_try parses e = Inr x"
    by (auto simp: extractSingleBookMetadata_def split: sum.splits)
  from tr have asin_ok: "ASIN_PATTERN (md_asin x)"
    by (auto simp: extractSingleBookMetadata_try_def validateAsin_def Let_def
        split: if_splits sum.splits prod.splits)
  from tr obtain t tp where t: "extractTitle e = Inr (t, tp)" "t \<noteq> []" "md_title x = t"
    by (auto simp: extractSingleBookMetadata_try_def Let_def split: if_splits sum.splits prod.splits)
  have tt: "trim t = t"
    using t(1) by (auto simp: extractTitle_def trim_idem split: option.splits text_node.splits)
  obtain a ap where a: "extractAuthor e = (a, ap)"
    by (cases "extractAuthor e")
  have au: "md_author x = (if truthy a then the a else unknown_author)"
    using tr a by (auto simp: extractSingleBookMetadata_try_def Let_def split: if_splits sum.splits prod.splits)
  have "trim (md_author x) \<noteq> []"
  proof (cases "truthy a")
    case True
    then obtain s where "a = Some s" "s \<noteq> []"
      by (auto simp: truthy_def split: option.splits)
    then show ?thesis
      using extractAuthor_nonblank [of e s ap] a au True by simp
  next
    case False
    then show ?thesis by (simp add: au unknown_author_nonblank)
  qed
  then show ?thesis
    using asin_ok t tt by simp
qed

section \<open>The invariant of integrated books\<close>

lemma add_association_distinct:
  assumes "\<And>k ns. m k = Some ns \<Longrightarrow> distinct ns"
    and "add_association idToName m a k = Some ns"
  shows "distinct ns"
  using assms
  by (auto simp: add_association_def Let_def split: if_splits option.splits)

lemma add_associations_distinct:
  "(\<And>k ns. m k = Some ns \<Longrightarrow> distinct ns) \<Longrightarrow>
   add_associations idToName m as k = Some ns \<Longrightarrow> distinct ns"
proof (induction as arbitrary: m)
  case Nil
  then show ?case by simp
next
  case (Cons a as)
  have "\<And>k ns. add_association idToName m a k = Some ns \<Longrightarrow> distinct ns"
    using add_association_distinct Cons.prems(1) by blast
  then show ?case
    using Cons.IH [of "add_association idToName m a"] Cons.prems(2) by simp
qed

lemma buildASINCollectionMapping_distinct:
  "buildASINCollectionMapping cs as k = Some ns \<Longrightarrow> distinct ns"
  unfolding buildASINCollectionMapping_def
  by (rule add_associations_distinct [of Map.empty]) simp_all

lemma createSafeBook_fields:
  assumes "createSafeBook d = Inr b"
  shows "ASIN_PATTERN (asin b)"
    and "title b = trim (the (p_title d))"
    and "author b = trim (the (p_author d))"
    and "collections b = filter (\<lambda>c. trim c \<noteq> []) (case p_collections d of None \<Rightarrow> [] | Some cs \<Rightarrow> cs)"
  using assms
  by (auto simp: createSafeBook_def validateAsin_def split: if_splits sum.splits)

lemma merge_loop_books_from:
  "b \<in> set (ms_books (merge_loop m st xs)) \<Longrightarrow>
   b \<in> set (ms_books st) \<or> (\<exists>x \<in> set xs. createSafeBook (book_input m x) = Inr b)"
proof (induction xs arbitrary: st)
  case Nil
  then show ?case by simp
next
  case (Cons x xs)
  from Cons.prems have "b \<in> set (ms_books (merge_loop m (merge_step m st x) xs))"
    by simp
  from Cons.IH [OF this]
  show ?case
    by (auto simp: merge_step_def split: if_splits sum.splits)
qed

lemma created_book_invariant:
  assumes created: "createSafeBook (book_input (buildASINCollectionMapping cs as) x) = Inr b"
    and valid: "isValidBook b"
  shows "book_invariant b"
proof -
  let ?m = "buildASINCollectionMapping cs as"
  note f = createSafeBook_fields [OF created]
  have "title b \<noteq> []" "author b \<noteq> []"
    using valid by (auto simp: isValidBook_def split: if_splits)
  then have t: "trim (title b) \<noteq> []" and a: "trim (author b) \<noteq> []"
    using f(2,3) by (simp_all add: trim_idem)
  have c: "collections b = filter (\<lambda>c. trim c \<noteq> []) (case ?m (md_asin x) of None \<Rightarrow> [] | Some ns \<Rightarrow> ns)"
    using f(4) by (simp add: book_input_def)
  have "distinct (case ?m (md_asin x) of None \<Rightarrow> [] | Some ns \<Rightarrow> ns)"
    using buildASINCollectionMapping_distinct [of cs as "md_asin x"] by (auto split: option.splits)
  then have d: "distinct (collections b)"
    by (simp add: c)
  have e: "[] \<notin> set (collections b)"
    by (auto simp: c trim_Nil)
  show ?thesis
    using f(1) t a d e by (simp add: book_invariant_def)
qed

lemma merged_valid_book_invariant:
  assumes "b \<in> set (validBooks (validateIntegratedData (mr_books (mergeBookData xs cs as)) cols))"
  shows "book_invariant b"
proof -
  from assms have v: "isValidBook b" and m: "b \<in> set (mr_books (mergeBookData xs cs as))"
    by (simp_all add: validateIntegratedData_def)
  from m have "b \<in> set (ms_books (merge_loop (buildASINCollectionMapping cs as) merge_init xs))"
    by (simp add: mergeBookData_fields)
  then obtain x where "createSafeBook (book_input (buildASINCollectionMapping cs as) x) = Inr b"
    using merge_loop_books_from by (fastforce simp: merge_init_def)
  then show ?thesis
    using v by (rule created_book_invariant)
qed

text \<open>
  C8. Every book record of an integration result satisfies the invariant: its identifier
  matches the ASIN pattern, its title and its author are not empty after trimming, and
  its list of collection names holds no empty string and no name twice. This holds for
  the books of a whole run and, more generally, for the books that the final validation
  keeps of a merge of any raw metadata list.
\<close>

theorem integrator_book_invariant:
  "(\<forall>b \<in> set (books (integrateAllBookData parses ms cs as)). book_invariant b) \<and>
   (\<forall>b \<in> set (validBooks (validateIntegratedData (mr_books (mergeBookData xs cs as)) cols)).
      book_invariant b)"
  by (auto simp: integrateAllBookData_def Let_def intro: merged_valid_book_invariant)

section \<open>A whole run\<close>

lemma merge_loop_accounting:
  "length (ms_books (merge_loop m st xs)) + ms_duplicateCount (merge_loop m st xs) +
     ms_invalidCount (merge_loop m st xs) =
   length (ms_books st) + ms_duplicateCount st + ms_invalidCount st + length xs"
  by (induction xs arbitrary: st) (auto simp: merge_step_cases)

text \<open>
  Every element of the metadata file reaches at most one of the counters: the books
  read from the XML are at most the elements, and final books, duplicates and invalid
  records together are at most the books read.
\<close>

lemma integration_accounting:
  "finalBookCount (statistics (integrateAllBookData parses ms cs as)) +
     duplicateBookCount (statistics (integrateAllBookData parses ms cs as)) +
     invalidBookCount (statistics (integrateAllBookData parses ms cs as))
   \<le> xmlBookCount (statistics (integrateAllBookData parses ms cs as)) \<and>
   xmlBookCount (statistics (integrateAllBookData parses ms cs as)) \<le> length ms"
proof -
  let ?xs = "extractBookMetadata parses ms"
  let ?m = "buildASINCollectionMapping (updateBookCounts cs as) as"
  have acc: "length (ms_books (merge_loop ?m merge_init ?xs)) +
      ms_duplicateCount (merge_loop ?m merge_init ?xs) + ms_invalidCount (merge_loop ?m merge_init ?xs)
      = length ?xs"
    using merge_loop_accounting [of ?m merge_init ?xs] by (simp add: merge_init_def)
  have "length (filter isValidBook (ms_books (merge_loop ?m merge_init ?xs)))
      \<le> length (ms_books (merge_loop ?m merge_init ?xs))"
    by (rule length_filter_le)
  moreover have "finalBookCount (statistics (integrateAllBookData parses ms cs as)) =
      length (filter isValidBook (ms_books (merge_loop ?m merge_init ?xs)))"
    by (simp add: integrateAllBookData_def Let_def mergeBookData_fields validateIntegratedData_def)
  moreover have "duplicateBookCount (statistics (integrateAllBookData parses ms cs as)) =
      ms_duplicateCount (merge_loop ?m merge_init ?xs)"
    by (simp add: integrateAllBookData_def Let_def mergeBookData_fields)
  moreover have "invalidBookCount (statistics (integrateAllBookData parses ms cs as)) =
      ms_invalidCount (merge_loop ?m merge_init ?xs)"
    by (simp add: integrateAllBookData_def Let_def mergeBookData_fields)
  moreover have x: "xmlBookCount (statistics (integrateAllBookData parses ms cs as)) = length ?xs"
    by (simp add: integrateAllBookData_def Let_def)
  ultimately have first: "finalBookCount (statistics (integrateAllBookData parses ms cs as)) +
     duplicateBookCount (statistics (integrateAllBookData parses ms cs as)) +
     invalidBookCount (statistics (integrateAllBookData parses ms cs as))
   \<le> xmlBookCount (statistics (integrateAllBookData parses ms cs as))"
    using acc by linarith
  have "length ?xs \<le> length ms"
    by (simp add: extractBookMetadata_eq List.map_filter_def)
  then have "xmlBookCount (statistics (integrateAllBookData parses ms cs as)) \<le> length ms"
    by (simp add: x)
  then show ?thesis
    using first by blast
qed

lemma extracted_book_created:
  assumes "extractSingleBookMetadata parses e = Some x"
  shows "\<exists>b. createSafeBook (book_input m x) = Inr b \<and> isValidBook b"
proof -
  note v = extractSingleBookMetadata_valid [OF assms]
  have nonblank: "md_author x \<noteq> []"
    using v by (auto simp: trim_Nil)
  have "accepted m x"
    using v nonblank by (simp add: accepted_iff)
  then obtain b where b: "createSafeBook (book_input m x) = Inr b"
    by (auto simp: accepted_def split: sum.splits)
  note f = createSafeBook_fields [OF b]
  have "asin b \<noteq> []"
    using f(1) by (auto simp: ASIN_PATTERN_iff)
  moreover have "title b \<noteq> []" "author b \<noteq> []"
    using f(2,3) v by (simp_all add: book_input_def)
  ultimately have "isValidBook b"
    using f(1) by (simp add: isValidBook_def validateAsin_def)
  then show ?thesis
    using b by blast
qed

lemma missing_asin_skipped: "\<not> truthy (ASIN e) \<Longrightarrow> extractSingleBookMetadata parses e = None"
  by (simp add: extractSingleBookMetadata_def extractSingleBookMetadata_try_def)

text \<open>
  C1 (as amended). When the metadata file holds exactly three elements, one without an
  ASIN and two that the extractor accepts with the same identifier, the result holds
  exactly one book, the one created from the first of the two; the statistics report
  two books read from the XML, one final book, one duplicate and no invalid record.
  The element without an ASIN is dropped by the extractor and reaches no counter of
  the integration.
\<close>

theorem three_element_scenario:
  assumes missing: "\<not> truthy (ASIN e0)"
    and e1: "extractSingleBookMetadata parses e1 = Some x1"
    and e2: "extractSingleBookMetadata parses e2 = Some x2"
    and same: "md_asin x2 = md_asin x1"
    and order: "ms = [e0, e1, e2] \<or> ms = [e1, e0, e2] \<or> ms = [e1, e2, e0]"
  shows "\<exists>b. books (integrateAllBookData parses ms cs as) = [b] \<and>
           createSafeBook (book_input (buildASINCollectionMapping (updateBookCounts cs as) as) x1) = Inr b \<and>
           xmlBookCount (statistics (integrateAllBookData parses ms cs as)) = 2 \<and>
           finalBookCount (statistics (integrateAllBookData parses ms cs as)) = 1 \<and>
           duplicateBookCount (statistics (integrateAllBookData parses ms cs as)) = 1 \<and>
           invalidBookCount (statistics (integrateAllBookData parses ms cs as)) = 0"
proof -
  let ?m = "buildASINCollectionMapping (updateBookCounts cs as) as"
  have e0: "extractSingleBookMetadata parses e0 = None"
    using missing by (rule missing_asin_skipped)
  have xs: "extractBookMetadata parses ms = [x1, x2]"
    using order e0 e1 e2 by (auto simp: extractBookMetadata_eq List.map_filter_simps)
  obtain b where b: "createSafeBook (book_input ?m x1) = Inr b" and vb: "isValidBook b"
    using extracted_book_created [OF e1] by blast
  have merged: "mergeBookData [x1, x2] (updateBookCounts cs as) as =
      \<lparr> mr_books = [b], mr_collections = convert_collections (updateBookCounts cs as),
        duplicateCount = 1, invalidCount = 0 \<rparr>"
    by (simp add: mergeBookData_def Let_def merge_step_def b same)
  have "books (integrateAllBookData parses ms cs as) = [b]"
    by (simp add: integrateAllBookData_def Let_def xs merged validateIntegratedData_def vb)
  moreover have "xmlBookCount (statistics (integrateAllBookData parses ms cs as)) = 2"
    by (simp add: integrateAllBookData_def Let_def xs)
  moreover have "finalBookCount (statistics (integrateAllBookData parses ms cs as)) = 1"
    by (simp add: integrateAllBookData_def Let_def xs merged validateIntegratedData_def vb)
  moreover have "duplicateBookCount (statistics (integrateAllBookData parses ms cs as)) = 1"
    by (simp add: integrateAllBookData_def Let_def xs merged)
  moreover have "invalidBookCount (statistics (integrateAllBookData parses ms cs as)) = 0"
    by (simp add: integrateAllBookData_def Let_def xs merged)
  ultimately show ?thesis
    using b by blast
qed

lemmas run_defs = integrateAllBookData_def extractBookMetadata_eq List.map_filter_simps
  extractSingleBookMetadata_def extractSingleBookMetadata_try_def extractTitle_def extractAuthor_def
  extractPublisher_def extractDate_def extractOriginType_def unknown_author_def element_def
  updateBookCounts_def validateIntegratedData_def isValidBook_def isValidCollection_def
  createSafeCollection_def add_association_def

text \<open>
  Two books, one duplicate, one invalid record and a total of three do not come out of
  such a file: the run yields one book, one duplicate, no invalid record and two books
  read.
\<close>

theorem three_element_scenario_counterexample:
  "length (books (integrateAllBookData (\<lambda>s. True)
      [element None ''No identifier'', element (Some ''B000000001'') ''First'',
       element (Some ''B000000001'') ''Second''] [] [])) = 1 \<and>
   statistics (integrateAllBookData (\<lambda>s. True)
      [element None ''No identifier'', element (Some ''B000000001'') ''First'',
       element (Some ''B000000001'') ''Second''] [] []) =
     \<lparr> xmlBookCount = 2, sqliteCollectionCount = 0, finalBookCount = 1, finalCollectionCount = 0,
       duplicateBookCount = 1, invalidBookCount = 0 \<rparr>"
  by (simp add: run_defs eval_defs)

theorem three_element_scenario_witness:
  "xmlBookCount (statistics (integrateAllBookData (\<lambda>s. True)
      [element (Some ''B000000001'') ''First'', element None ''No identifier'',
       element (Some '' B000000001 '') ''Second''] [] [])) = 2 \<and>
   finalBookCount (statistics (integrateAllBookData (\<lambda>s. True)
      [element (Some ''B000000001'') ''First'', element None ''No identifier'',
       element (Some '' B000000001 '') ''Second''] [] [])) = 1 \<and>
   duplicateBookCount (statistics (integrateAllBookData (\<lambda>s. True)
      [element (Some ''B000000001'') ''First'', element None ''No identifier'',
       element (Some '' B000000001 '') ''Second''] [] [])) = 1 \<and>
   invalidBookCount (statistics (integrateAllBookData (\<lambda>s. True)
      [element (Some ''B000000001'') ''First'', element None ''No identifier'',
       element (Some '' B000000001 '') ''Second''] [] [])) = 0"
proof -
  let ?e0 = "element None ''No identifier''"
  let ?e1 = "element (Some ''B000000001'') ''First''"
  let ?e2 = "element (Some '' B000000001 '') ''Second''"
  let ?x1 = "the (extractSingleBookMetadata (\<lambda>s. True) ?e1)"
  let ?x2 = "the (extractSingleBookMetadata (\<lambda>s. True) ?e2)"
  have h0: "\<not> truthy (ASIN ?e0)"
    by (simp add: element_def truthy_def)
  have h1: "extractSingleBookMetadata (\<lambda>s. True) ?e1 = Some ?x1"
    by (simp add: run_defs eval_defs)
  have h2: "extractSingleBookMetadata (\<lambda>s. True) ?e2 = Some ?x2"
    by (simp add: run_defs eval_defs)
  have h3: "md_asin ?x2 = md_asin ?x1"
    by (simp add: run_defs eval_defs)
  have h4: "[?e1, ?e0, ?e2] = [?e0, ?e1, ?e2] \<or> [?e1, ?e0, ?e2] = [?e1, ?e0, ?e2] \<or>
      [?e1, ?e0, ?e2] = [?e1, ?e2, ?e0]"
    by simp
  from three_element_scenario [OF h0 h1 h2 h3 h4, of "[]" "[]"]
  show ?thesis by blast
qed

theorem integrator_book_invariant_witness:
  "book_invariant (hd (books (integrateAllBookData (\<lambda>s. True)
      [element (Some ''B000000001'') '' Kokoro '']
      [collection ''col-a'' ''Fiction'' 0]
      [association ''B000000001'' ''col-a'', association ''B000000001'' ''col-a'']))) \<and>
   map collections (books (integrateAllBookData (\<lambda>s. True)
      [element (Some ''B000000001'') '' Kokoro '']
      [collection ''col-a'' ''Fiction'' 0]
      [association ''B000000001'' ''col-a'', association ''B000000001'' ''col-a''])) = [[js ''Fiction'']]"
proof -
  let ?r = "integrateAllBookData (\<lambda>s. True)
      [element (Some ''B000000001'') '' Kokoro '']
      [collection ''col-a'' ''Fiction'' 0]
      [association ''B000000001'' ''col-a'', association ''B000000001'' ''col-a'']"
  have cols: "map collections (books ?r) = [[js ''Fiction'']]"
    by (simp add: run_defs eval_defs)
  then have "hd (books ?r) \<in> set (books ?r)"
    by (cases "books ?r") simp_all
  then have "book_invariant (hd (books ?r))"
    using integrator_book_invariant
      [of "\<lambda>s. True" "[element (Some ''B000000001'') '' Kokoro '']"
          "[collection ''col-a'' ''Fiction'' 0]"
          "[association ''B000000001'' ''col-a'', association ''B000000001'' ''col-a'']"]
    by blast
  then show ?thesis
    using cols by simp
qed

section \<open>Path detection\<close>

lemma usable_file_regular: "usable_file h p \<Longrightarrow> regular_file h p"
  by (auto simp: usable_file_def regular_file_def split: option.splits)

lemma usable_file_iff: "usable_file h p \<longleftrightarrow> validateFile h p = Inr ()"
  by (auto simp: validateFile_def usable_file_def split: option.splits)

lemma validateKindlePath_Inr_iff:
  "validateKindlePath h base = Inr ps \<longleftrightarrow>
     (\<exists>stats. files h base = Some stats \<and> isDirectory stats) \<and>
     usable_file h (path_join h [base, TARGET_XML]) \<and>
     usable_file h (path_join h [base, js ''db'', TARGET_DB]) \<and>
     ps = \<lparr> xmlPath = path_join h [base, TARGET_XML],
            dbPath = path_join h [base, js ''db'', TARGET_DB] \<rparr>"
  by (auto simp: validateKindlePath_def Let_def usable_file_iff split: option.splits sum.splits)

lemma env_override_iff:
  "env_override h =
     (if overrides_win h
      then Some \<lparr> success = True,
                  paths = Some \<lparr> xmlPath = resolve h (the (KINDLE_XML_PATH h)),
                                  dbPath = resolve h (the (KINDLE_DB_PATH h)) \<rparr>,
                  pd_error = None,
                  searchedPaths = [resolve h (the (KINDLE_XML_PATH h)), resolve h (the (KINDLE_DB_PATH h))],
                  source = Env \<rparr>
      else None)"
  by (auto simp: env_override_def overrides_win_def regular_file_def Let_def split: option.splits)

lemma loadCachedConfiguration_hit:
  assumes "getCurrentConfiguration cf = Some config" and "fresh h config"
    and "validateKindlePath h (kindleCachePath config) = Inr ps"
  shows "loadCachedConfiguration h cf =
     \<lparr> success = True, paths = Some ps, pd_error = None,
       searchedPaths = [kindleCachePath config], source = cfg_source config \<rparr>"
  using assms by (simp add: loadCachedConfiguration_def fresh_def)

text \<open>
  C5 (as amended). When both per-file overrides are set and each resolves to an existing
  regular file (in particular to an existing, readable, non-empty regular file), that
  pair is returned at once with the configuration file untouched, whatever the flag, the
  persisted configuration and the candidates are. Otherwise, unless the forced-refresh
  flag is set, a persisted configuration within its 24 hours that validates again is
  returned, before any candidate directory is looked at.
\<close>

theorem detectKindlePaths_priority:
  "(truthy (KINDLE_XML_PATH h) \<and> truthy (KINDLE_DB_PATH h) \<and>
    usable_file h (resolve h (the (KINDLE_XML_PATH h))) \<and>
    usable_file h (resolve h (the (KINDLE_DB_PATH h))) \<longrightarrow> overrides_win h) \<and>
   (overrides_win h \<longrightarrow>
      detectKindlePaths h cf forceUpdate =
        (\<lparr> success = True,
           paths = Some \<lparr> xmlPath = resolve h (the (KINDLE_XML_PATH h)),
                          dbPath = resolve h (the (KINDLE_DB_PATH h)) \<rparr>,
           pd_error = None,
           searchedPaths = [resolve h (the (KINDLE_XML_PATH h)), resolve h (the (KINDLE_DB_PATH h))],
           source = Env \<rparr>, cf)) \<and>
   (\<not> overrides_win h \<and> \<not> forceUpdate \<and> getCurrentConfiguration cf = Some config \<and>
    fresh h config \<and> validateKindlePath h (kindleCachePath config) = Inr ps \<longrightarrow>
      detectKindlePaths h cf forceUpdate =
        (\<lparr> success = True, paths = Some ps, pd_error = None,
           searchedPaths = [kindleCachePath config], source = cfg_source config \<rparr>, cf))"
proof (intro conjI impI)
  assume "truthy (KINDLE_XML_PATH h) \<and> truthy (KINDLE_DB_PATH h) \<and>
    usable_file h (resolve h (the (KINDLE_XML_PATH h))) \<and>
    usable_file h (resolve h (the (KINDLE_DB_PATH h)))"
  then show "overrides_win h"
    by (simp add: overrides_win_def usable_file_regular)
next
  assume "overrides_win h"
  then show "detectKindlePaths h cf forceUpdate =
        (\<lparr> success = True,
           paths = Some \<lparr> xmlPath = resolve h (the (KINDLE_XML_PATH h)),
                          dbPath = resolve h (the (KINDLE_DB_PATH h)) \<rparr>,
           pd_error = None,
           searchedPaths = [resolve h (the (KINDLE_XML_PATH h)), resolve h (the (KINDLE_DB_PATH h))],
           source = Env \<rparr>, cf)"
    by (simp add: detectKindlePaths_def env_override_iff)
next
  assume a: "\<not> overrides_win h \<and> \<not> forceUpdate \<and> getCurrentConfiguration cf = Some config \<and>
    fresh h config \<and> validateKindlePath h (kindleCachePath config) = Inr ps"
  then have "loadCachedConfiguration h cf =
     \<lparr> success = True, paths = Some ps, pd_error = None,
       searchedPaths = [kindleCachePath config], source = cfg_source config \<rparr>"
    by (simp add: loadCachedConfiguration_hit)
  then show "detectKindlePaths h cf forceUpdate =
        (\<lparr> success = True, paths = Some ps, pd_error = None,
           searchedPaths = [kindleCachePath config], source = cfg_source config \<rparr>, cf)"
    using a by (simp add: detectKindlePaths_def env_override_iff)
qed

lemmas path_eval = posix_resolve_def posix_join_def posix_normalize_def normalizeString_def norm_step_def
  slash_def js_def

lemmas host_eval = posix_host_def old_config_def a_file_def a_directory_def TARGET_XML_def TARGET_DB_def
  truthy_def trim_def is_js_space_def invalidChars_def

lemmas detect_eval = detectKindlePaths_def env_override_def loadCachedConfiguration_def
  getCurrentConfiguration_def isValidConfiguration_def validateKindlePath_def validateFile_def
  generatePathCandidates_def saveConfiguration_def setManualPath_def validateAndNormalizePath_def
  enumerate_eq_zip

lemma old_valid: "validateKindlePath posix_host (js ''/old/kindle'') =
     Inr \<lparr> xmlPath = js ''/old/kindle/KindleSyncMetadataCache.xml'',
           dbPath = js ''/old/kindle/db/synced_collections.db'' \<rparr>"
  by (simp add: detect_eval host_eval path_eval)

text \<open>
  With the forced-refresh flag set the persisted configuration is not used, although
  it is within its 24 hours and validates: the directory override wins. And overrides
  that resolve to empty regular files are returned, before the persisted configuration,
  since the first block only asks whether both are regular files.
\<close>

theorem detectKindlePaths_priority_counterexample:
  "loadCachedConfiguration posix_host (Stored old_config) =
     \<lparr> success = True,
       paths = Some \<lparr> xmlPath = js ''/old/kindle/KindleSyncMetadataCache.xml'',
                      dbPath = js ''/old/kindle/db/synced_collections.db'' \<rparr>,
       pd_error = None, searchedPaths = [js ''/old/kindle''], source = Auto \<rparr> \<and>
   fst (detectKindlePaths posix_host (Stored old_config) True) =
     \<lparr> success = True,
       paths = Some \<lparr> xmlPath = js ''/srv/kindle/KindleSyncMetadataCache.xml'',
                      dbPath = js ''/srv/kindle/db/synced_collections.db'' \<rparr>,
       pd_error = None, searchedPaths = [js ''/srv/kindle''], source = Env \<rparr> \<and>
   \<not> usable_file empty_override_host
       (resolve empty_override_host (the (KINDLE_XML_PATH empty_override_host))) \<and>
   success (loadCachedConfiguration empty_override_host (Stored old_config)) \<and>
   fst (detectKindlePaths empty_override_host (Stored old_config) False) =
     \<lparr> success = True,
       paths = Some \<lparr> xmlPath = js ''/tmp/empty.xml'', dbPath = js ''/tmp/empty.db'' \<rparr>,
       pd_error = None, searchedPaths = [js ''/tmp/empty.xml'', js ''/tmp/empty.db''], source = Env \<rparr>"
proof -
  have forced: "loadCachedConfiguration posix_host (Stored old_config) =
     \<lparr> success = True,
       paths = Some \<lparr> xmlPath = js ''/old/kindle/KindleSyncMetadataCache.xml'',
                      dbPath = js ''/old/kindle/db/synced_collections.db'' \<rparr>,
       pd_error = None, searchedPaths = [js ''/old/kindle''], source = Auto \<rparr> \<and>
   fst (detectKindlePaths posix_host (Stored old_config) True) =
     \<lparr> success = True,
       paths = Some \<lparr> xmlPath = js ''/srv/kindle/KindleSyncMetadataCache.xml'',
                      dbPath = js ''/srv/kindle/db/synced_collections.db'' \<rparr>,
       pd_error = None, searchedPaths = [js ''/srv/kindle''], source = Env \<rparr>"
    by (simp add: detect_eval host_eval path_eval)
  have empty: "\<not> usable_file empty_override_host
       (resolve empty_override_host (the (KINDLE_XML_PATH empty_override_host))) \<and>
   success (loadCachedConfiguration empty_override_host (Stored old_config)) \<and>
   fst (detectKindlePaths empty_override_host (Stored old_config) False) =
     \<lparr> success = True,
       paths = Some \<lparr> xmlPath = js ''/tmp/empty.xml'', dbPath = js ''/tmp/empty.db'' \<rparr>,
       pd_error = None, searchedPaths = [js ''/tmp/empty.xml'', js ''/tmp/empty.db''], source = Env \<rparr>"
    by (simp add: empty_override_host_def usable_file_def detect_eval host_eval path_eval Let_def)
  show ?thesis
    using forced empty by blast
qed

theorem detectKindlePaths_priority_witness:
  "detectKindlePaths override_host (Stored old_config) True =
     (\<lparr> success = True,
        paths = Some \<lparr> xmlPath = js ''/old/kindle/KindleSyncMetadataCache.xml'',
                       dbPath = js ''/old/kindle/db/synced_collections.db'' \<rparr>,
        pd_error = None,
        searchedPaths = [js ''/old/kindle/KindleSyncMetadataCache.xml'',
                         js ''/old/kindle/db/synced_collections.db''],
        source = Env \<rparr>, Stored old_config) \<and>
   detectKindlePaths posix_host (Stored old_config) False =
     (\<lparr> success = True,
        paths = Some \<lparr> xmlPath = js ''/old/kindle/KindleSyncMetadataCache.xml'',
                       dbPath = js ''/old/kindle/db/synced_collections.db'' \<rparr>,
        pd_error = None, searchedPaths = [js ''/old/kindle''], source = Auto \<rparr>, Stored old_config)"
proof -
  have usable: "truthy (KINDLE_XML_PATH override_host) \<and> truthy (KINDLE_DB_PATH override_host) \<and>
      usable_file override_host (resolve override_host (the (KINDLE_XML_PATH override_host))) \<and>
      usable_file override_host (resolve override_host (the (KINDLE_DB_PATH override_host)))"
    by (simp add: override_host_def usable_file_def host_eval path_eval)
  have win: "overrides_win override_host"
    using detectKindlePaths_priority [of override_host] usable by blast
  have first: "detectKindlePaths override_host (Stored old_config) True =
     (\<lparr> success = True,
        paths = Some \<lparr> xmlPath = resolve override_host (the (KINDLE_XML_PATH override_host)),
                       dbPath = resolve override_host (the (KINDLE_DB_PATH override_host)) \<rparr>,
        pd_error = None,
        searchedPaths = [resolve override_host (the (KINDLE_XML_PATH override_host)),
                         resolve override_host (the (KINDLE_DB_PATH override_host))],
        source = Env \<rparr>, Stored old_config)"
    using detectKindlePaths_priority [of override_host "Stored old_config" True] win by blast
  have lose: "\<not> overrides_win posix_host"
    by (simp add: overrides_win_def posix_host_def truthy_def)
  have cfg: "getCurrentConfiguration (Stored old_config) = Some old_config"
    by (simp add: getCurrentConfiguration_def isValidConfiguration_def old_config_def js_def)
  have fr: "fresh posix_host old_config"
    by (simp add: fresh_def posix_host_def old_config_def)
  have second: "detectKindlePaths posix_host (Stored old_config) False =
     (\<lparr> success = True,
        paths = Some \<lparr> xmlPath = js ''/old/kindle/KindleSyncMetadataCache.xml'',
                       dbPath = js ''/old/kindle/db/synced_collections.db'' \<rparr>,
        pd_error = None, searchedPaths = [kindleCachePath old_config],
        source = cfg_source old_config \<rparr>, Stored old_config)"
    using detectKindlePaths_priority [of posix_host "Stored old_config" False old_config
        "\<lparr> xmlPath = js ''/old/kindle/KindleSyncMetadataCache.xml'',
           dbPath = js ''/old/kindle/db/synced_collections.db'' \<rparr>"]
      lose cfg fr old_valid
    by (simp add: old_config_def)
  show ?thesis
  proof (rule conjI)
    show "detectKindlePaths override_host (Stored old_config) True =
     (\<lparr> success = True,
        paths = Some \<lparr> xmlPath = js ''/old/kindle/KindleSyncMetadataCache.xml'',
                       dbPath = js ''/old/kindle/db/synced_collections.db'' \<rparr>,
        pd_error = None,
        searchedPaths = [js ''/old/kindle/KindleSyncMetadataCache.xml'',
                         js ''/old/kindle/db/synced_collections.db''],
        source = Env \<rparr>, Stored old_config)"
      unfolding first by (simp add: override_host_def host_eval path_eval)
    show "detectKindlePaths posix_host (Stored old_config) False =
     (\<lparr> success = True,
        paths = Some \<lparr> xmlPath = js ''/old/kindle/KindleSyncMetadataCache.xml'',
                       dbPath = js ''/old/kindle/db/synced_collections.db'' \<rparr>,
        pd_error = None, searchedPaths = [js ''/old/kindle''], source = Auto \<rparr>, Stored old_config)"
      unfolding second by (simp add: old_config_def)
  qed
qed

text \<open>
  C6 (as amended). When a persisted configuration exists, is not older than 24 hours and
  validates again (its directory exists and both target files exist, are readable,
  regular and not empty), \<open>loadCachedConfiguration\<close> returns its paths with the
  source tag stored in the configuration, and \<open>detectKindlePaths\<close> without forced
  refresh returns that result when the per-file overrides do not win.
\<close>

theorem loadCachedConfiguration_fresh:
  assumes "getCurrentConfiguration cf = Some config"
    and "fresh h config"
    and "files h (kindleCachePath config) = Some stats" and "isDirectory stats"
    and "usable_file h (path_join h [kindleCachePath config, TARGET_XML])"
    and "usable_file h (path_join h [kindleCachePath config, js ''db'', TARGET_DB])"
  shows "loadCachedConfiguration h cf =
           \<lparr> success = True,
             paths = Some \<lparr> xmlPath = path_join h [kindleCachePath config, TARGET_XML],
                            dbPath = path_join h [kindleCachePath config, js ''db'', TARGET_DB] \<rparr>,
             pd_error = None, searchedPaths = [kindleCachePath config],
             source = cfg_source config \<rparr> \<and>
         (\<not> overrides_win h \<longrightarrow>
            detectKindlePaths h cf False = (loadCachedConfiguration h cf, cf))"
proof -
  have v: "validateKindlePath h (kindleCachePath config) =
      Inr \<lparr> xmlPath = path_join h [kindleCachePath config, TARGET_XML],
            dbPath = path_join h [kindleCachePath config, js ''db'', TARGET_DB] \<rparr>"
    using assms(3-6) by (simp add: validateKindlePath_Inr_iff)
  have hit: "loadCachedConfiguration h cf =
           \<lparr> success = True,
             paths = Some \<lparr> xmlPath = path_join h [kindleCachePath config, TARGET_XML],
                            dbPath = path_join h [kindleCachePath config, js ''db'', TARGET_DB] \<rparr>,
             pd_error = None, searchedPaths = [kindleCachePath config],
             source = cfg_source config \<rparr>"
    using assms(1,2) v by (rule loadCachedConfiguration_hit)
  moreover have "detectKindlePaths h cf False = (loadCachedConfiguration h cf, cf)"
    if "\<not> overrides_win h"
    using that by (simp add: detectKindlePaths_def env_override_iff hit)
  ultimately show ?thesis by blast
qed

text \<open>
  The source tag of the returned result is the stored one (here \<open>auto\<close>); the tag
  \<open>cached\<close> does not exist.
\<close>

theorem loadCachedConfiguration_fresh_counterexample:
  "success (loadCachedConfiguration posix_host (Stored old_config)) \<and>
   source_tag (source (loadCachedConfiguration posix_host (Stored old_config))) = js ''auto'' \<and>
   source_tag (source (loadCachedConfiguration posix_host (Stored old_config))) \<noteq> js ''cached''"
  by (simp add: detect_eval host_eval path_eval source_tag_def)

theorem loadCachedConfiguration_fresh_witness:
  "loadCachedConfiguration posix_host (Stored old_config) =
     \<lparr> success = True,
       paths = Some \<lparr> xmlPath = js ''/old/kindle/KindleSyncMetadataCache.xml'',
                      dbPath = js ''/old/kindle/db/synced_collections.db'' \<rparr>,
       pd_error = None, searchedPaths = [js ''/old/kindle''], source = Auto \<rparr>"
proof -
  have cfg: "getCurrentConfiguration (Stored old_config) = Some old_config"
    by (simp add: getCurrentConfiguration_def isValidConfiguration_def old_config_def js_def)
  have fr: "fresh posix_host old_config"
    by (simp add: fresh_def posix_host_def old_config_def)
  have dir: "files posix_host (kindleCachePath old_config) = Some a_directory"
    by (simp add: posix_host_def old_config_def js_def)
  have isdir: "isDirectory a_directory"
    by (simp add: a_directory_def)
  have xml: "usable_file posix_host (path_join posix_host [kindleCachePath old_config, TARGET_XML])"
    by (simp add: usable_file_def host_eval path_eval)
  have db: "usable_file posix_host (path_join posix_host [kindleCachePath old_config, js ''db'', TARGET_DB])"
    by (simp add: usable_file_def host_eval path_eval)
  from loadCachedConfiguration_fresh [OF cfg fr dir isdir xml db]
  show ?thesis
    by (simp add: host_eval path_eval)
qed

text \<open>
  What \<open>setManualPath\<close> rejects: an input whose resolved form still contains \<open>..\<close>
  or a character of the class. Nothing is persisted then.
\<close>

lemma setManualPath_rejects:
  assumes "p \<noteq> []"
    and "str_includes (resolve h (trim p)) (js ''..'') \<or>
         (\<exists>c \<in> set (resolve h (trim p)). c \<in> set invalidChars)"
  shows "\<exists>e. setManualPath h cf p =
           (\<lparr> success = False, paths = None, pd_error = Some e, searchedPaths = [p],
              source = Manual \<rparr>, cf) \<and>
         (e = SecurityViolation \<or> e = InvalidCharacters)"
  using assms
  by (auto simp: setManualPath_def validateAndNormalizePath_def Let_def list_ex_iff)

text \<open>
  C7. A manual input with a parent-directory segment is to be rejected as a security
  violation, with nothing persisted. \<open>validateAndNormalizePath\<close> looks for \<open>..\<close>
  only after \<open>path.resolve\<close>, which has removed every such segment: on the POSIX
  host the input \<open>/srv/x/../kindle\<close> is accepted as \<open>/srv/kindle\<close>, and the
  configuration is persisted.
\<close>

theorem setManualPath_traversal_accepted:
  "js ''..'' \<in> set (split_on slash (js ''/srv/x/../kindle'')) \<and>
   validateAndNormalizePath posix_host (js ''/srv/x/../kindle'') = Inr (js ''/srv/kindle'') \<and>
   setManualPath posix_host NoFile (js ''/srv/x/../kindle'') =
     (\<lparr> success = True,
        paths = Some \<lparr> xmlPath = js ''/srv/kindle/KindleSyncMetadataCache.xml'',
                       dbPath = js ''/srv/kindle/db/synced_collections.db'' \<rparr>,
        pd_error = None, searchedPaths = [js ''/srv/kindle''], source = Manual \<rparr>,
      Stored \<lparr> kindleCachePath = js ''/srv/kindle'', lastValidated = 1000000000,
               cfg_source = Manual \<rparr>)"
  by (simp add: detect_eval host_eval path_eval)

section \<open>The result cache\<close>







text \<open>A call that nothing interrupts is its test followed, on a miss, by its second part.\<close>

lemma getAllBooks_steps:
  "getAllBooks t run service =
     (case getAllBooks_check t service of
        Some bs \<Rightarrow> \<lparr> returned = Inr bs, after = service, pipeline_runs = 0 \<rparr>
      | None \<Rightarrow> getAllBooks_resume t run service)"
  by (auto simp: getAllBooks_def getAllBooks_check_def getAllBooks_resume_def cache_valid_def)



lemma overlapping_calls_first:
  "fst (overlapping_calls t1 run1 t2 run2 service) = getAllBooks t1 run1 service"
  by (simp add: overlapping_calls_def Let_def getAllBooks_steps)




text \<open>
  C10. When the integration result carries a non-empty list of diagnostics,
  \<open>getAllBooks\<close> throws instead of returning the books of the result, and the cache
  is left as it was: an unpopulated cache (which is never valid) stays unpopulated.
\<close>

theorem getAllBooks_errors:
  "(cachedBooks service = None \<longrightarrow> \<not> cache_valid t service) \<and>
   (run = Inr r \<and> errors r = Some es \<and> es \<noteq> [] \<and> \<not> cache_valid t service \<longrightarrow>
      getAllBooks t run service =
        \<lparr> returned = Inl (IntegrationFailed es), after = service, pipeline_runs = 1 \<rparr>)"
  by (auto simp: getAllBooks_def cache_valid_def split: list.splits)


lemma run_with_errors_value:
  "errors (integrateAllBookData (\<lambda>s. True) [element (Some ''B000000001'') ''Kokoro'']
            [collection '' '' ''Unnamed'' 0] []) = Some [InvalidCollectionData (js ''unknown'')]"
  "map asin (books (integrateAllBookData (\<lambda>s. True) [element (Some ''B000000001'') ''Kokoro'']
            [collection '' '' ''Unnamed'' 0] [])) = [js ''B000000001'']"
  by (simp_all add: run_defs eval_defs or_unknown_def)



theorem getAllBooks_errors_witness:
  "getAllBooks 1000 run_with_errors \<lparr> cachedBooks = None, lastCacheTime = 0 \<rparr> =
     \<lparr> returned = Inl (IntegrationFailed [InvalidCollectionData (js ''unknown'')]),
       after = \<lparr> cachedBooks = None, lastCacheTime = 0 \<rparr>, pipeline_runs = 1 \<rparr> \<and>
   map asin (books (integrateAllBookData (\<lambda>s. True) [element (Some ''B000000001'') ''Kokoro'']
            [collection '' '' ''Unnamed'' 0] [])) = [js ''B000000001'']"
proof -
  let ?s0 = "\<lparr> cachedBooks = None, lastCacheTime = 0 \<rparr>"
  let ?r = "integrateAllBookData (\<lambda>s. True) [element (Some ''B000000001'') ''Kokoro'']
            [collection '' '' ''Unnamed'' 0] []"
  note inst = getAllBooks_errors [of ?s0 1000 run_with_errors ?r "[InvalidCollectionData (js ''unknown'')]"]
  have "cachedBooks ?s0 = None"
    by simp
  then have miss: "\<not> cache_valid 1000 ?s0"
    using inst by blast
  have "run_with_errors = Inr ?r \<and> errors ?r = Some [InvalidCollectionData (js ''unknown'')] \<and>
      [InvalidCollectionData (js ''unknown'')] \<noteq> []"
    by (simp add: run_with_errors_def run_with_errors_value)
  then have "getAllBooks 1000 run_with_errors ?s0 =
      \<lparr> returned = Inl (IntegrationFailed [InvalidCollectionData (js ''unknown'')]),
        after = ?s0, pipeline_runs = 1 \<rparr>"
    using inst miss by blast
  then show ?thesis
    by (simp add: run_with_errors_value)
qed

end
